theory Spec2Isabelle
  imports Complex_Main
begin

section \<open>Python values and errors\<close>

text \<open>
  The benchmark harness is Python. Its integers are unbounded (\<open>int\<close>), its floating
  point numbers are modelled by the reals they denote (no rounding of arithmetic, no
  NaN or infinity), and every exception the modelled code can raise is a value of
  \<open>py_error\<close>, returned as \<open>Inl\<close> of a sum type.
\<close>

datatype py_error =
    IndexError
  | ValueError
  | ZeroDivisionError
  | StoreError string
  | ImportFailed

text \<open>\<^verbatim>\<open>int(x)\<close> on a float truncates towards zero.\<close>

definition py_int :: "real \<Rightarrow> int" where
  "py_int x = (if 0 \<le> x then \<lfloor>x\<rfloor> else \<lceil>x\<rceil>)"

text \<open>\<^verbatim>\<open>xs[i]\<close>: a negative index counts from the end, an index out of range raises.\<close>

definition py_index :: "'a list \<Rightarrow> int \<Rightarrow> py_error + 'a" where
  "py_index xs i =
     (if 0 \<le> i \<and> i < int (length xs) then Inr (xs ! nat i)
      else if i < 0 \<and> - int (length xs) \<le> i then Inr (xs ! nat (int (length xs) + i))
      else Inl IndexError)"

text \<open>\<^verbatim>\<open>a / b\<close> on numbers raises on a zero divisor.\<close>

definition py_truediv :: "real \<Rightarrow> real \<Rightarrow> py_error + real" where
  "py_truediv a b = (if b = 0 then Inl ZeroDivisionError else Inr (a / b))"

text \<open>
  \<^verbatim>\<open>round(x, 2)\<close>: the nearest multiple of 1/100, a tie going to the even neighbour.
\<close>

definition round_half_even :: "real \<Rightarrow> int" where
  "round_half_even r =
     (let f = \<lfloor>r\<rfloor>; d = r - of_int f
      in if d < 1 / 2 then f else if 1 / 2 < d then f + 1 else if even f then f else f + 1)"

definition py_round2 :: "real \<Rightarrow> real" where
  "py_round2 x = of_int (round_half_even (x * 100)) / 100"

section \<open>Latency percentiles\<close>

text \<open>
  \<^verbatim>\<open>Benchmark._calc_percentiles\<close> (neo4j_bench.py):
  \<^verbatim>\<open>
    def _calc_percentiles(self, data):
        if not data: return {}
        data.sort()
        n = len(data)
        return {
            "p50_ms": data[int(n * 0.5)],
            "p90_ms": data[int(n * 0.9)],
            "p99_ms": data[int(n * 0.99)]
        }
  \<close>
  The result is a dictionary from key to latency; each subscript may raise. The sort
  is in place, on the caller's list; the model gives the dictionary only.
\<close>

definition calc_percentiles :: "real list \<Rightarrow> py_error + (string \<rightharpoonup> real)" where
  "calc_percentiles data =
     (if data = [] then Inr Map.empty
      else
        let sorted_data = sort data; n = length sorted_data in
        case py_index sorted_data (py_int (real n * 0.5)) of
          Inl e \<Rightarrow> Inl e
        | Inr p50 \<Rightarrow>
            (case py_index sorted_data (py_int (real n * 0.9)) of
               Inl e \<Rightarrow> Inl e
             | Inr p90 \<Rightarrow>
                 (case py_index sorted_data (py_int (real n * 0.99)) of
                    Inl e \<Rightarrow> Inl e
                  | Inr p99 \<Rightarrow>
                      Inr [''p50_ms'' \<mapsto> p50, ''p90_ms'' \<mapsto> p90, ''p99_ms'' \<mapsto> p99])))"

text \<open>\<^verbatim>\<open>OptimizedBenchmark._calc_percentiles\<close> (neo4j_bench_optimized.py), the same text.\<close>

definition opt_calc_percentiles :: "real list \<Rightarrow> py_error + (string \<rightharpoonup> real)" where
  "opt_calc_percentiles data =
     (if data = [] then Inr Map.empty
      else
        let sorted_data = sort data; n = length sorted_data in
        case py_index sorted_data (py_int (real n * 0.5)) of
          Inl e \<Rightarrow> Inl e
        | Inr p50 \<Rightarrow>
            (case py_index sorted_data (py_int (real n * 0.9)) of
               Inl e \<Rightarrow> Inl e
             | Inr p90 \<Rightarrow>
                 (case py_index sorted_data (py_int (real n * 0.99)) of
                    Inl e \<Rightarrow> Inl e
                  | Inr p99 \<Rightarrow>
                      Inr [''p50_ms'' \<mapsto> p50, ''p90_ms'' \<mapsto> p90, ''p99_ms'' \<mapsto> p99])))"

text \<open>The index \<open>\<lfloor>n * K\<rfloor>\<close> the spec names for a percentile.\<close>

definition pct_index :: "nat \<Rightarrow> real \<Rightarrow> nat" where
  "pct_index n K = nat \<lfloor>real n * K\<rfloor>"

section \<open>Resource monitor\<close>

subsection \<open>The host the monitor reads\<close>

text \<open>
  What the monitor takes from outside the program: the files under \<^verbatim>\<open>/proc\<close>
  (\<open>None\<close> when \<^verbatim>\<open>open\<close> or \<^verbatim>\<open>read\<close> raises), the clock
  \<^verbatim>\<open>time.time()\<close>, and Python's conversions \<^verbatim>\<open>float(x)\<close> and \<^verbatim>\<open>int(x)\<close>
  of a string (\<open>None\<close> when they raise \<^verbatim>\<open>ValueError\<close>).
\<close>

record host =
  proc_files :: "string \<Rightarrow> string option"
  clock :: real
  to_float :: "string \<Rightarrow> real option"
  to_int :: "string \<Rightarrow> int option"

subsection \<open>String operations\<close>

text \<open>
  \<^verbatim>\<open>str.splitlines()\<close> over ASCII text: a line ends at LF, CR, CR LF, VT, FF, FS, GS
  or RS; the empty string has no lines, and a final line break opens no further line.
\<close>

definition is_line_boundary :: "char \<Rightarrow> bool" where
  "is_line_boundary c \<longleftrightarrow>
     c \<in> set [CHR 0x0A, CHR 0x0D, CHR 0x0B, CHR 0x0C, CHR 0x1C, CHR 0x1D, CHR 0x1E]"

fun splitlines_from :: "string \<Rightarrow> string \<Rightarrow> string list" where
  "splitlines_from cur [] = (if cur = [] then [] else [cur])"
| "splitlines_from cur (c # cs) =
     (if is_line_boundary c then
        cur # splitlines_from []
                (if c = CHR 0x0D \<and> cs \<noteq> [] \<and> hd cs = CHR 0x0A then tl cs else cs)
      else splitlines_from (cur @ [c]) cs)"

definition py_splitlines :: "string \<Rightarrow> string list" where
  "py_splitlines s = splitlines_from [] s"

text \<open>\<^verbatim>\<open>str.split()\<close> over ASCII text: the maximal runs of non-whitespace characters.\<close>

definition is_space :: "char \<Rightarrow> bool" where
  "is_space c \<longleftrightarrow>
     c \<in> set [CHR 0x20, CHR 0x09, CHR 0x0A, CHR 0x0D, CHR 0x0B, CHR 0x0C,
              CHR 0x1C, CHR 0x1D, CHR 0x1E, CHR 0x1F]"

fun split_from :: "string \<Rightarrow> string \<Rightarrow> string list" where
  "split_from cur [] = (if cur = [] then [] else [cur])"
| "split_from cur (c # cs) =
     (if is_space c then (if cur = [] then split_from [] cs else cur # split_from [] cs)
      else split_from (cur @ [c]) cs)"

definition py_split :: "string \<Rightarrow> string list" where
  "py_split s = split_from [] s"

text \<open>\<^verbatim>\<open>s.startswith(p)\<close> and \<^verbatim>\<open>sub in s\<close>.\<close>

definition startswith :: "string \<Rightarrow> string \<Rightarrow> bool" where
  "startswith s p \<longleftrightarrow> take (length p) s = p"

fun py_contains :: "string \<Rightarrow> string \<Rightarrow> bool" where
  "py_contains sub [] \<longleftrightarrow> sub = []"
| "py_contains sub (c # cs) \<longleftrightarrow> take (length sub) (c # cs) = sub \<or> py_contains sub cs"

subsection \<open>Reading the counters\<close>

text \<open>
  \<^verbatim>\<open>
    def _read_proc_file(self, path):
        try:
            with open(path, 'r') as f:
                return f.read()
        except:
            return ""
  \<close>
\<close>

definition read_proc_file :: "host \<Rightarrow> string \<Rightarrow> string" where
  "read_proc_file h path = (case proc_files h path of Some content \<Rightarrow> content | None \<Rightarrow> [])"

text \<open>\<^verbatim>\<open>[float(x) for x in xs]\<close>: the first string that does not convert raises.\<close>

fun floats_of :: "host \<Rightarrow> string list \<Rightarrow> py_error + real list" where
  "floats_of h [] = Inr []"
| "floats_of h (x # xs) =
     (case to_float h x of
        None \<Rightarrow> Inl ValueError
      | Some v \<Rightarrow> (case floats_of h xs of Inl e \<Rightarrow> Inl e | Inr vs \<Rightarrow> Inr (v # vs)))"

text \<open>
  \<^verbatim>\<open>
    def _get_cpu_times(self):
        content = self._read_proc_file('/proc/stat')
        for line in content.splitlines():
            if line.startswith('cpu '):
                parts = line.split()
                values = [float(x) for x in parts[1:]]
                total = sum(values)
                idle = values[3]
                return total, idle
        return 0, 0
  \<close>
\<close>

fun cpu_times_scan :: "host \<Rightarrow> string list \<Rightarrow> py_error + real \<times> real" where
  "cpu_times_scan h [] = Inr (0, 0)"
| "cpu_times_scan h (line # rest) =
     (if startswith line ''cpu '' then
        (case floats_of h (drop 1 (py_split line)) of
           Inl e \<Rightarrow> Inl e
         | Inr values \<Rightarrow>
             (case py_index values 3 of
                Inl e \<Rightarrow> Inl e
              | Inr idle \<Rightarrow> Inr (sum_list values, idle)))
      else cpu_times_scan h rest)"

definition get_cpu_times :: "host \<Rightarrow> py_error + real \<times> real" where
  "get_cpu_times h = cpu_times_scan h (py_splitlines (read_proc_file h ''/proc/stat''))"

text \<open>
  \<^verbatim>\<open>
    def _get_disk_io(self):
        content = self._read_proc_file('/proc/diskstats')
        read_sectors = 0
        write_sectors = 0
        for line in content.splitlines():
            parts = line.split()
            if len(parts) < 14: continue
            dev_name = parts[2]
            if any(x in dev_name for x in ['nvme', 'sd', 'vd', 'xvd']):
                read_sectors += int(parts[5])
                write_sectors += int(parts[9])
        return read_sectors * 512, write_sectors * 512
  \<close>
  The subscripts 2, 5 and 9 are in range behind the length test.
\<close>

definition is_storage_device :: "string \<Rightarrow> bool" where
  "is_storage_device dev_name \<longleftrightarrow>
     list_ex (\<lambda>x. py_contains x dev_name) [''nvme'', ''sd'', ''vd'', ''xvd'']"

fun disk_io_scan :: "host \<Rightarrow> string list \<Rightarrow> int \<Rightarrow> int \<Rightarrow> py_error + int \<times> int" where
  "disk_io_scan h [] read_sectors write_sectors = Inr (read_sectors * 512, write_sectors * 512)"
| "disk_io_scan h (line # rest) read_sectors write_sectors =
     (let parts = py_split line in
      if length parts < 14 then disk_io_scan h rest read_sectors write_sectors
      else if is_storage_device (parts ! 2) then
        (case to_int h (parts ! 5) of
           None \<Rightarrow> Inl ValueError
         | Some r \<Rightarrow>
             (case to_int h (parts ! 9) of
                None \<Rightarrow> Inl ValueError
              | Some w \<Rightarrow> disk_io_scan h rest (read_sectors + r) (write_sectors + w)))
      else disk_io_scan h rest read_sectors write_sectors)"

definition get_disk_io :: "host \<Rightarrow> py_error + int \<times> int" where
  "get_disk_io h = disk_io_scan h (py_splitlines (read_proc_file h ''/proc/diskstats'')) 0 0"

text \<open>
  \<^verbatim>\<open>
    def _get_mem_info(self):
        content = self._read_proc_file('/proc/meminfo')
        mem_total = 0
        mem_avail = 0
        for line in content.splitlines():
            if 'MemTotal' in line:
                mem_total = int(line.split()[1]) # kB
            if 'MemAvailable' in line:
                mem_avail = int(line.split()[1]) # kB
        return mem_total, mem_total - mem_avail
  \<close>
\<close>

definition second_int :: "host \<Rightarrow> string \<Rightarrow> py_error + int" where
  "second_int h line =
     (case py_index (py_split line) 1 of
        Inl e \<Rightarrow> Inl e
      | Inr x \<Rightarrow> (case to_int h x of None \<Rightarrow> Inl ValueError | Some v \<Rightarrow> Inr v))"

fun mem_info_scan :: "host \<Rightarrow> string list \<Rightarrow> int \<Rightarrow> int \<Rightarrow> py_error + int \<times> int" where
  "mem_info_scan h [] mem_total mem_avail = Inr (mem_total, mem_total - mem_avail)"
| "mem_info_scan h (line # rest) mem_total mem_avail =
     (case (if py_contains ''MemTotal'' line then second_int h line else Inr mem_total) of
        Inl e \<Rightarrow> Inl e
      | Inr mem_total' \<Rightarrow>
          (case (if py_contains ''MemAvailable'' line then second_int h line else Inr mem_avail) of
             Inl e \<Rightarrow> Inl e
           | Inr mem_avail' \<Rightarrow> mem_info_scan h rest mem_total' mem_avail'))"

definition get_mem_info :: "host \<Rightarrow> py_error + int \<times> int" where
  "get_mem_info h = mem_info_scan h (py_splitlines (read_proc_file h ''/proc/meminfo'')) 0 0"

text \<open>
  \<^verbatim>\<open>
    def _capture_stats(self):
        cpu_total, cpu_idle = self._get_cpu_times()
        disk_read, disk_write = self._get_disk_io()
        mem_total, mem_used = self._get_mem_info()
        return {"time": time.time(), "cpu_total": cpu_total, "cpu_idle": cpu_idle,
                "disk_read_bytes": disk_read, "disk_write_bytes": disk_write,
                "mem_total_kb": mem_total, "mem_used_kb": mem_used}
  \<close>
\<close>

record snapshot =
  time :: real
  cpu_total :: real
  cpu_idle :: real
  disk_read_bytes :: int
  disk_write_bytes :: int
  mem_total_kb :: int
  mem_used_kb :: int

definition capture_stats :: "host \<Rightarrow> py_error + snapshot" where
  "capture_stats h =
     (case get_cpu_times h of
        Inl e \<Rightarrow> Inl e
      | Inr (cpu_total', cpu_idle') \<Rightarrow>
          (case get_disk_io h of
             Inl e \<Rightarrow> Inl e
           | Inr (disk_read, disk_write) \<Rightarrow>
               (case get_mem_info h of
                  Inl e \<Rightarrow> Inl e
                | Inr (mem_total, mem_used) \<Rightarrow>
                    Inr \<lparr>time = clock h, cpu_total = cpu_total', cpu_idle = cpu_idle',
                         disk_read_bytes = disk_read, disk_write_bytes = disk_write,
                         mem_total_kb = mem_total, mem_used_kb = mem_used\<rparr>)))"

subsection \<open>The monitor and its metrics\<close>

text \<open>
  \<^verbatim>\<open>
    def __init__(self):
        self.start_stats = self._capture_stats()
        self.end_stats = None

    def stop(self):
        self.end_stats = self._capture_stats()
  \<close>
\<close>

record monitor =
  start_stats :: snapshot
  end_stats :: "snapshot option"

definition new_monitor :: "host \<Rightarrow> py_error + monitor" where
  "new_monitor h =
     (case capture_stats h of
        Inl e \<Rightarrow> Inl e
      | Inr s \<Rightarrow> Inr \<lparr>start_stats = s, end_stats = None\<rparr>)"

definition stop :: "host \<Rightarrow> monitor \<Rightarrow> py_error + monitor" where
  "stop h m =
     (case capture_stats h of
        Inl e \<Rightarrow> Inl e
      | Inr s \<Rightarrow> Inr (m\<lparr>end_stats := Some s\<rparr>))"

text \<open>
  The body of \<^verbatim>\<open>SystemMonitor.get_metrics\<close> (neo4j_bench.py) after the second
  snapshot is there, by its local variables:
  \<^verbatim>\<open>
        duration = self.end_stats["time"] - self.start_stats["time"]
        if duration <= 0: duration = 1

        delta_total = self.end_stats["cpu_total"] - self.start_stats["cpu_total"]
        delta_idle = self.end_stats["cpu_idle"] - self.start_stats["cpu_idle"]
        cpu_load_pct = 0.0
        if delta_total > 0:
            cpu_load_pct = 100.0 * (1.0 - (delta_idle / delta_total))

        read_bytes = self.end_stats["disk_read_bytes"] - self.start_stats["disk_read_bytes"]
        write_bytes = self.end_stats["disk_write_bytes"] - self.start_stats["disk_write_bytes"]

        return {
            "cpu_load_percent": round(cpu_load_pct, 2),
            "memory_used_gb": round(self.end_stats["mem_used_kb"] / (1024*1024), 2),
            "disk_read_mb_s": round((read_bytes / duration) / (1024*1024), 2),
            "disk_write_mb_s": round((write_bytes / duration) / (1024*1024), 2)
        }
  \<close>
  The two divisions by a value of the snapshots can raise; the divisions by the
  constant \<open>1024 * 1024\<close> cannot.
\<close>

record metrics =
  cpu_load_percent :: real
  memory_used_gb :: real
  disk_read_mb_s :: real
  disk_write_mb_s :: real

definition duration :: "snapshot \<Rightarrow> snapshot \<Rightarrow> real" where
  "duration s e = (let d = time e - time s in if d \<le> 0 then 1 else d)"

definition delta_total :: "snapshot \<Rightarrow> snapshot \<Rightarrow> real" where
  "delta_total s e = cpu_total e - cpu_total s"

definition delta_idle :: "snapshot \<Rightarrow> snapshot \<Rightarrow> real" where
  "delta_idle s e = cpu_idle e - cpu_idle s"

definition cpu_load_pct :: "snapshot \<Rightarrow> snapshot \<Rightarrow> py_error + real" where
  "cpu_load_pct s e =
     (if delta_total s e > 0 then
        (case py_truediv (delta_idle s e) (delta_total s e) of
           Inl err \<Rightarrow> Inl err
         | Inr q \<Rightarrow> Inr (100 * (1 - q)))
      else Inr 0)"

definition read_bytes :: "snapshot \<Rightarrow> snapshot \<Rightarrow> int" where
  "read_bytes s e = disk_read_bytes e - disk_read_bytes s"

definition write_bytes :: "snapshot \<Rightarrow> snapshot \<Rightarrow> int" where
  "write_bytes s e = disk_write_bytes e - disk_write_bytes s"

definition get_metrics :: "snapshot \<Rightarrow> snapshot \<Rightarrow> py_error + metrics" where
  "get_metrics s e =
     (case cpu_load_pct s e of
        Inl err \<Rightarrow> Inl err
      | Inr cpu \<Rightarrow>
          (case py_truediv (of_int (read_bytes s e)) (duration s e) of
             Inl err \<Rightarrow> Inl err
           | Inr rd \<Rightarrow>
               (case py_truediv (of_int (write_bytes s e)) (duration s e) of
                  Inl err \<Rightarrow> Inl err
                | Inr wr \<Rightarrow>
                    Inr \<lparr>cpu_load_percent = py_round2 cpu,
                         memory_used_gb = py_round2 (of_int (mem_used_kb e) / (1024 * 1024)),
                         disk_read_mb_s = py_round2 (rd / (1024 * 1024)),
                         disk_write_mb_s = py_round2 (wr / (1024 * 1024))\<rparr>)))"

text \<open>
  The whole method: a monitor not yet stopped is stopped first.
  \<^verbatim>\<open>
    def get_metrics(self):
        if not self.end_stats:
            self.stop()
        ...
  \<close>
\<close>

definition monitor_get_metrics :: "host \<Rightarrow> monitor \<Rightarrow> py_error + metrics \<times> monitor" where
  "monitor_get_metrics h m =
     (case (case end_stats m of Some e \<Rightarrow> Inr (e, m)
            | None \<Rightarrow>
                (case capture_stats h of
                   Inl err \<Rightarrow> Inl err
                 | Inr e \<Rightarrow> Inr (e, m\<lparr>end_stats := Some e\<rparr>))) of
        Inl err \<Rightarrow> Inl err
      | Inr (e, m') \<Rightarrow>
          (case get_metrics (start_stats m') e of
             Inl err \<Rightarrow> Inl err
           | Inr r \<Rightarrow> Inr (r, m')))"

text \<open>
  \<^verbatim>\<open>SystemMonitor.get_metrics\<close> of neo4j_bench_optimized.py, the same statements
  without the comments, written here in one piece.
\<close>

definition opt_get_metrics :: "snapshot \<Rightarrow> snapshot \<Rightarrow> py_error + metrics" where
  "opt_get_metrics s e =
     (let d0 = time e - time s;
          d = (if d0 \<le> 0 then 1 else d0);
          dt = cpu_total e - cpu_total s;
          di = cpu_idle e - cpu_idle s;
          rb = disk_read_bytes e - disk_read_bytes s;
          wb = disk_write_bytes e - disk_write_bytes s
      in case (if dt > 0 then
                 (case py_truediv di dt of Inl err \<Rightarrow> Inl err | Inr q \<Rightarrow> Inr (100 * (1 - q)))
               else Inr 0) of
           Inl err \<Rightarrow> Inl err
         | Inr cpu \<Rightarrow>
             (case py_truediv (of_int rb) d of
                Inl err \<Rightarrow> Inl err
              | Inr rd \<Rightarrow>
                  (case py_truediv (of_int wb) d of
                     Inl err \<Rightarrow> Inl err
                   | Inr wr \<Rightarrow>
                       Inr \<lparr>cpu_load_percent = py_round2 cpu,
                            memory_used_gb = py_round2 (of_int (mem_used_kb e) / (1024 * 1024)),
                            disk_read_mb_s = py_round2 (rd / (1024 * 1024)),
                            disk_write_mb_s = py_round2 (wr / (1024 * 1024))\<rparr>)))"

text \<open>
  Two snapshots ten seconds apart: 200 CPU ticks of which 100 idle, 100 MiB read,
  20 MiB written, 2 GiB of memory in use.
\<close>

definition sample_start :: snapshot where
  "sample_start =
     \<lparr>time = 100, cpu_total = 1000, cpu_idle = 800, disk_read_bytes = 0,
      disk_write_bytes = 0, mem_total_kb = 8388608, mem_used_kb = 1048576\<rparr>"

definition sample_end :: snapshot where
  "sample_end =
     \<lparr>time = 110, cpu_total = 1200, cpu_idle = 900, disk_read_bytes = 104857600,
      disk_write_bytes = 20971520, mem_total_kb = 8388608, mem_used_kb = 2097152\<rparr>"

text \<open>A host on which no file can be opened and no string converts.\<close>

definition bare_host :: host where
  "bare_host =
     \<lparr>proc_files = (\<lambda>path. None), clock = 5, to_float = (\<lambda>x. None),
      to_int = (\<lambda>x. None)\<rparr>"

section \<open>Data generator\<close>

text \<open>
  \<^verbatim>\<open>
    ZIPF_SKEW = 2.0

    class DataGenerator:
        def __init__(self, num_accounts, num_transactions):
            self.num_accounts = num_accounts
            self.num_transactions = num_transactions
            self.start_time = int(time.time()) - (365 * 24 * 3600) # 1 year ago
  \<close>
  The pseudo-random draws are inputs of the model: \<open>randints k\<close> is the value of the
  \<open>k\<close>-th call of \<^verbatim>\<open>random.randint(0, 30*24*3600)\<close> and \<open>randoms k\<close> the value of the
  \<open>k\<close>-th call of \<^verbatim>\<open>random.random()\<close>, a number in \<open>[0, 1)\<close>.
\<close>

definition ZIPF_SKEW :: real where
  "ZIPF_SKEW = 2"

definition YEAR_SECONDS :: int where
  "YEAR_SECONDS = 365 * 24 * 3600"

record data_generator =
  num_accounts :: int
  num_transactions :: int
  start_time :: int

definition new_data_generator :: "int \<Rightarrow> int \<Rightarrow> int \<Rightarrow> data_generator" where
  "new_data_generator now n_acc n_tx =
     \<lparr>num_accounts = n_acc, num_transactions = n_tx, start_time = now - YEAR_SECONDS\<rparr>"

subsection \<open>Batching loop\<close>

text \<open>
  Both generators are the same loop around a different record:
  \<^verbatim>\<open>
        batch = []
        for i in range(count):
            batch.append(<record i>)
            if len(batch) >= batch_size:
                yield batch
                batch = []
        if batch:
            yield batch
  \<close>
  A generator object is suspended either before the iteration \<open>i\<close> of the loop with the
  records gathered so far (\<open>Suspended i batch\<close>; a fresh generator is
  \<open>Suspended 0 []\<close>), or it has returned (\<open>Exhausted\<close>). \<open>gen_next\<close> is
  \<^verbatim>\<open>next(gen)\<close>: it runs the body up to the next \<^verbatim>\<open>yield\<close> and gives the batch,
  or \<open>None\<close> for \<^verbatim>\<open>StopIteration\<close>.
\<close>

datatype 'a gen_state = Suspended nat "'a list" | Exhausted

function gen_next ::
  "(nat \<Rightarrow> 'a) \<Rightarrow> int \<Rightarrow> int \<Rightarrow> 'a gen_state \<Rightarrow> 'a list option \<times> 'a gen_state" where
  "gen_next mk count batch_size Exhausted = (None, Exhausted)"
| "gen_next mk count batch_size (Suspended i batch) =
     (if int i < count then
        (let batch' = batch @ [mk i] in
         if int (length batch') \<ge> batch_size then (Some batch', Suspended (Suc i) [])
         else gen_next mk count batch_size (Suspended (Suc i) batch'))
      else if batch \<noteq> [] then (Some batch, Exhausted)
      else (None, Exhausted))"
  by pat_completeness auto
termination
  by (relation "measure (\<lambda>(mk, count, batch_size, st).
        case st of Exhausted \<Rightarrow> 0 | Suspended i batch \<Rightarrow> nat count - i)") auto

declare gen_next.simps [simp del]

text \<open>
  \<^verbatim>\<open>for batch in gen: ...\<close> takes batches until the generator returns; \<open>consume\<close>
  gives the batches in order and the state the generator is left in.
\<close>

function consume ::
  "(nat \<Rightarrow> 'a) \<Rightarrow> int \<Rightarrow> int \<Rightarrow> 'a gen_state \<Rightarrow> 'a list list \<times> 'a gen_state" where
  "consume mk count batch_size Exhausted = ([], Exhausted)"
| "consume mk count batch_size (Suspended i batch) =
     (if int i < count then
        (let batch' = batch @ [mk i] in
         if int (length batch') \<ge> batch_size then
           (let (rest, final) = consume mk count batch_size (Suspended (Suc i) [])
            in (batch' # rest, final))
         else consume mk count batch_size (Suspended (Suc i) batch'))
      else if batch \<noteq> [] then ([batch], Exhausted)
      else ([], Exhausted))"
  by pat_completeness auto
termination
  by (relation "measure (\<lambda>(mk, count, batch_size, st).
        case st of Exhausted \<Rightarrow> 0 | Suspended i batch \<Rightarrow> nat count - i)") auto

declare consume.simps [simp del]

text \<open>What is still to come out of a generator: the gathered records and the rest.\<close>

fun pending :: "(nat \<Rightarrow> 'a) \<Rightarrow> int \<Rightarrow> 'a gen_state \<Rightarrow> 'a list" where
  "pending mk count Exhausted = []"
| "pending mk count (Suspended i batch) = batch @ map mk [i..<nat count]"

fun gathered :: "'a gen_state \<Rightarrow> nat" where
  "gathered Exhausted = 0"
| "gathered (Suspended i batch) = length batch"

subsection \<open>Accounts\<close>

text \<open>\<^verbatim>\<open>str(i)\<close> of a non-negative integer, for the f-string \<^verbatim>\<open>f"Acc_{i}"\<close>.\<close>

definition digit_char :: "nat \<Rightarrow> char" where
  "digit_char d = ''0123456789'' ! (d mod 10)"

function str_nat :: "nat \<Rightarrow> string" where
  "str_nat n = (if n < 10 then [digit_char n] else str_nat (n div 10) @ [digit_char (n mod 10)])"
  by pat_completeness auto
termination
  by (relation "measure (\<lambda>n. n)") auto

declare str_nat.simps [simp del]

text \<open>
  \<^verbatim>\<open>
    def generate_accounts(self, batch_size=5000):
        batch = []
        for i in range(self.num_accounts):
            batch.append({
                "id": i,
                "name": f"Acc_{i}",
                "type": "Standard" if i % 10 != 0 else "Premium",
                "created_at": self.start_time + random.randint(0, 30*24*3600)
            })
            if len(batch) >= batch_size:
                yield batch
                batch = []
        if batch:
            yield batch
  \<close>
  The iteration \<open>i\<close> makes the \<open>i\<close>-th call of \<^verbatim>\<open>random.randint\<close>.
\<close>

record account =
  acc_id :: int
  acc_name :: string
  acc_type :: string
  created_at :: int

definition account_record :: "data_generator \<Rightarrow> (nat \<Rightarrow> int) \<Rightarrow> nat \<Rightarrow> account" where
  "account_record g randints i =
     \<lparr>acc_id = int i,
      acc_name = ''Acc_'' @ str_nat i,
      acc_type = (if i mod 10 \<noteq> 0 then ''Standard'' else ''Premium''),
      created_at = start_time g + randints i\<rparr>"

definition generate_accounts_next ::
  "data_generator \<Rightarrow> (nat \<Rightarrow> int) \<Rightarrow> int \<Rightarrow> account gen_state
     \<Rightarrow> account list option \<times> account gen_state" where
  "generate_accounts_next g randints batch_size st =
     gen_next (account_record g randints) (num_accounts g) batch_size st"

definition generate_accounts ::
  "data_generator \<Rightarrow> (nat \<Rightarrow> int) \<Rightarrow> int \<Rightarrow> account list list \<times> account gen_state" where
  "generate_accounts g randints batch_size =
     consume (account_record g randints) (num_accounts g) batch_size (Suspended 0 [])"

subsection \<open>Transactions\<close>

text \<open>
  \<^verbatim>\<open>x ** y\<close> on floats, for a base and an exponent that are not negative
  (\<^verbatim>\<open>x ** 0.0\<close> is 1.0, also for \<^verbatim>\<open>x = 0.0\<close>).
\<close>

definition py_pow :: "real \<Rightarrow> real \<Rightarrow> real" where
  "py_pow x y = (if y = 0 then 1 else x powr y)"

text \<open>
  \<^verbatim>\<open>
    def _pick_account_id(self):
        return int(self.num_accounts * (random.random() ** ZIPF_SKEW))
  \<close>
  \<open>skewed_index\<close> is the expression with the exponent and the count as arguments,
  \<open>u\<close> being the draw.
\<close>

definition skewed_index :: "real \<Rightarrow> int \<Rightarrow> real \<Rightarrow> int" where
  "skewed_index S N u = py_int (of_int N * py_pow u S)"

definition pick_account_id :: "data_generator \<Rightarrow> real \<Rightarrow> int" where
  "pick_account_id g u = skewed_index ZIPF_SKEW (num_accounts g) u"

text \<open>
  \<^verbatim>\<open>
    def generate_transactions(self, batch_size=5000):
        batch = []
        for i in range(self.num_transactions):
            offset = int((365 * 24 * 3600) * math.sqrt(random.random()))
            ts = self.start_time + offset
            batch.append({
                "id": i,
                "amount": round(random.uniform(1.0, 10000.0), 2),
                "ts": ts,
                "currency": "USD",
                "status": "COMPLETED",
                "from_acc": self._pick_account_id(),
                "to_acc": self._pick_account_id()
            })
            if len(batch) >= batch_size:
                yield batch
                batch = []
        if batch:
            yield batch
  \<close>
  An iteration draws four times from \<^verbatim>\<open>random.random()\<close>, in this order: for the
  offset, inside \<^verbatim>\<open>random.uniform(a, b)\<close> (which is \<^verbatim>\<open>a + (b - a) * random()\<close>),
  for the source account and for the target account.
\<close>

definition ts_offset :: "real \<Rightarrow> int" where
  "ts_offset u = py_int (of_int YEAR_SECONDS * sqrt u)"

record transaction =
  tx_id :: int
  amount :: real
  ts :: int
  currency :: string
  status :: string
  from_acc :: int
  to_acc :: int

definition transaction_record :: "data_generator \<Rightarrow> (nat \<Rightarrow> real) \<Rightarrow> nat \<Rightarrow> transaction" where
  "transaction_record g randoms i =
     (let offset = ts_offset (randoms (4 * i));
          ts' = start_time g + offset
      in \<lparr>tx_id = int i,
          amount = py_round2 (1 + (10000 - 1) * randoms (4 * i + 1)),
          ts = ts',
          currency = ''USD'',
          status = ''COMPLETED'',
          from_acc = pick_account_id g (randoms (4 * i + 2)),
          to_acc = pick_account_id g (randoms (4 * i + 3))\<rparr>)"

definition generate_transactions_next ::
  "data_generator \<Rightarrow> (nat \<Rightarrow> real) \<Rightarrow> int \<Rightarrow> transaction gen_state
     \<Rightarrow> transaction list option \<times> transaction gen_state" where
  "generate_transactions_next g randoms batch_size st =
     gen_next (transaction_record g randoms) (num_transactions g) batch_size st"

definition generate_transactions ::
  "data_generator \<Rightarrow> (nat \<Rightarrow> real) \<Rightarrow> int \<Rightarrow> transaction list list \<times> transaction gen_state" where
  "generate_transactions g randoms batch_size =
     consume (transaction_record g randoms) (num_transactions g) batch_size (Suspended 0 [])"

text \<open>A generator for seven accounts and five transactions, started at time 0.\<close>

definition small_generator :: data_generator where
  "small_generator = \<lparr>num_accounts = 7, num_transactions = 5, start_time = 0\<rparr>"

section \<open>Batch import with retry\<close>

text \<open>
  \<^verbatim>\<open>
    def _run_batch(self, query, batch):
        retries = 3
        while retries > 0:
            try:
                with self.driver.session() as session:
                    session.run(query, batch=batch)
                return
            except (ServiceUnavailable, TransientError) as e:
                retries -= 1
                print(f"Warn: Retrying batch due to {e}...")
                time.sleep(2)
        raise Exception("Failed to import batch after retries")
  \<close>
  (the same text in \<^verbatim>\<open>OptimizedNeo4jClient._run_batch\<close>). The store is outside the
  program: \<open>store k\<close> is what the \<open>k\<close>-th execution of the \<^verbatim>\<open>try\<close> block does, counted
  from 0. The run keeps the local variable \<open>retries\<close> and the trace of what was done.
\<close>

datatype outcome = Committed | ServiceUnavailable | TransientError | OtherError string

datatype event = Execute outcome | Warn | Sleep real

record batch_run =
  retries :: int
  trace :: "event list"

definition is_execute :: "event \<Rightarrow> bool" where
  "is_execute ev = (case ev of Execute out \<Rightarrow> True | Warn \<Rightarrow> False | Sleep d \<Rightarrow> False)"

definition attempts :: "event list \<Rightarrow> nat" where
  "attempts tr = length (filter is_execute tr)"

definition sleep_seconds :: "event \<Rightarrow> real" where
  "sleep_seconds ev = (case ev of Execute out \<Rightarrow> 0 | Warn \<Rightarrow> 0 | Sleep d \<Rightarrow> d)"

definition total_sleep :: "event list \<Rightarrow> real" where
  "total_sleep tr = sum_list (map sleep_seconds tr)"

function run_batch_loop :: "(nat \<Rightarrow> outcome) \<Rightarrow> batch_run \<Rightarrow> (py_error + unit) \<times> batch_run" where
  "run_batch_loop store st =
     (if retries st > 0 then
        (let out = store (attempts (trace st));
             st1 = st\<lparr>trace := trace st @ [Execute out]\<rparr>
         in case out of
              Committed \<Rightarrow> (Inr (), st1)
            | OtherError msg \<Rightarrow> (Inl (StoreError msg), st1)
            | ServiceUnavailable \<Rightarrow>
                run_batch_loop store
                  (st1\<lparr>retries := retries st1 - 1, trace := trace st1 @ [Warn, Sleep 2]\<rparr>)
            | TransientError \<Rightarrow>
                run_batch_loop store
                  (st1\<lparr>retries := retries st1 - 1, trace := trace st1 @ [Warn, Sleep 2]\<rparr>))
      else (Inl ImportFailed, st))"
  by pat_completeness auto
termination
  by (relation "measure (\<lambda>(store, st). nat (retries st))") auto

declare run_batch_loop.simps [simp del]

definition run_batch :: "(nat \<Rightarrow> outcome) \<Rightarrow> (py_error + unit) \<times> batch_run" where
  "run_batch store = run_batch_loop store \<lparr>retries = 3, trace = []\<rparr>"

text \<open>The outcomes the \<^verbatim>\<open>except\<close> clause catches.\<close>

definition retryable :: "outcome \<Rightarrow> bool" where
  "retryable out \<longleftrightarrow> out = ServiceUnavailable \<or> out = TransientError"

section \<open>Concurrency load test\<close>

text \<open>
  \<^verbatim>\<open>
    def run_concurrency_test(self, threads=10, duration_sec=10):
        stop_event = threading.Event()
        results = {"ops": 0, "errors": 0}

        def worker():
            with self.client.driver.session() as session:
                while not stop_event.is_set():
                    try:
                        aid = random.randint(0, self.num_accounts - 1)
                        session.run("MATCH (a:Account {id: $aid}) RETURN a.name", aid=aid).consume()
                        results["ops"] += 1
                    except:
                        results["errors"] += 1

        pool = []
        for _ in range(threads):
            t = threading.Thread(target=worker)
            t.start()
            pool.append(t)

        time.sleep(duration_sec)
        stop_event.set()
        for t in pool:
            t.join()

        return results["ops"] / duration_sec
  \<close>
  (the same text in \<^verbatim>\<open>OptimizedBenchmark.run_concurrency_test\<close>). The dictionary
  \<open>results\<close> and the stop event are shared by the threads, and no lock is taken.
  The statement \<^verbatim>\<open>results["ops"] += 1\<close> is a subscript read, an addition and a
  subscript write, and another thread may run between the read and the write. A worker
  is therefore at one of these points:
\<close>

datatype pc =
    AtLoopTest
  | AtQuery
  | AtLoadOps
  | AtStoreOps int
  | AtLoadErrors
  | AtStoreErrors int
  | Finished

text \<open>
  \<open>AtStoreOps v\<close> holds the value \<open>v\<close> the worker has read and not yet written back.
  \<open>my_ops\<close> and \<open>my_errors\<close> count what the worker itself has completed: the
  lookups that succeeded and the calls that failed.
\<close>

record worker =
  pos :: pc
  my_ops :: nat
  my_errors :: nat

record load_test =
  ops :: int
  errors :: int
  stop_event :: bool
  workers :: "worker list"

text \<open>
  A schedule is the order in which the threads take their steps: \<open>Run k ok\<close> lets the
  worker \<open>k\<close> take its next step (\<open>ok\<close> says whether the lookup succeeds, when the
  step is the lookup), \<open>SetStop\<close> is \<^verbatim>\<open>stop_event.set()\<close> of the main thread.
\<close>

datatype sched = Run nat bool | SetStop

definition worker_step :: "bool \<Rightarrow> load_test \<Rightarrow> worker \<Rightarrow> load_test \<times> worker" where
  "worker_step ok s w =
     (case pos w of
        AtLoopTest \<Rightarrow> (s, w\<lparr>pos := (if stop_event s then Finished else AtQuery)\<rparr>)
      | AtQuery \<Rightarrow>
          (if ok then (s, w\<lparr>pos := AtLoadOps, my_ops := my_ops w + 1\<rparr>)
           else (s, w\<lparr>pos := AtLoadErrors, my_errors := my_errors w + 1\<rparr>))
      | AtLoadOps \<Rightarrow> (s, w\<lparr>pos := AtStoreOps (ops s)\<rparr>)
      | AtStoreOps v \<Rightarrow> (s\<lparr>ops := v + 1\<rparr>, w\<lparr>pos := AtLoopTest\<rparr>)
      | AtLoadErrors \<Rightarrow> (s, w\<lparr>pos := AtStoreErrors (errors s)\<rparr>)
      | AtStoreErrors v \<Rightarrow> (s\<lparr>errors := v + 1\<rparr>, w\<lparr>pos := AtLoopTest\<rparr>)
      | Finished \<Rightarrow> (s, w))"

definition step :: "sched \<Rightarrow> load_test \<Rightarrow> load_test" where
  "step ev s =
     (case ev of
        SetStop \<Rightarrow> s\<lparr>stop_event := True\<rparr>
      | Run k ok \<Rightarrow>
          (if k < length (workers s) then
             (let (s', w') = worker_step ok s (workers s ! k)
              in s'\<lparr>workers := (workers s')[k := w']\<rparr>)
           else s))"

definition start_load_test :: "nat \<Rightarrow> load_test" where
  "start_load_test threads =
     \<lparr>ops = 0, errors = 0, stop_event = False,
      workers = replicate threads \<lparr>pos = AtLoopTest, my_ops = 0, my_errors = 0\<rparr>\<rparr>"

definition run_schedule :: "sched list \<Rightarrow> load_test \<Rightarrow> load_test" where
  "run_schedule evs s = fold step evs s"

text \<open>All workers have left their loop: every \<^verbatim>\<open>t.join()\<close> returns.\<close>

definition all_joined :: "load_test \<Rightarrow> bool" where
  "all_joined s = list_all (\<lambda>w. pos w = Finished) (workers s)"

definition sum_worker_ops :: "load_test \<Rightarrow> int" where
  "sum_worker_ops s = int (sum_list (map my_ops (workers s)))"

definition sum_worker_errors :: "load_test \<Rightarrow> int" where
  "sum_worker_errors s = int (sum_list (map my_errors (workers s)))"

text \<open>
  Two workers, one successful lookup each: both read the counter before either writes.
\<close>

definition lost_update_schedule :: "sched list" where
  "lost_update_schedule =
     [Run 0 True, Run 1 True,
      Run 0 True, Run 1 True,
      Run 0 True, Run 1 True,
      Run 0 True, Run 1 True,
      SetStop,
      Run 0 True, Run 1 True]"

text \<open>The same with two failing calls, for the error counter.\<close>

definition lost_error_schedule :: "sched list" where
  "lost_error_schedule =
     [Run 0 False, Run 1 False,
      Run 0 False, Run 1 False,
      Run 0 False, Run 1 False,
      Run 0 False, Run 1 False,
      SetStop,
      Run 0 False, Run 1 False]"

section \<open>Percentiles: properties\<close>

lemma py_int_nonneg: "0 \<le> x \<Longrightarrow> py_int x = \<lfloor>x\<rfloor>"
  by (simp add: py_int_def)

lemma pct_index_less:
  assumes "0 < n" and "0 \<le> K" and "K < 1"
  shows "pct_index n K < n"
proof -
  have "real n * K < real n" using assms by simp
  then have "\<lfloor>real n * K\<rfloor> < int n" by (simp add: floor_less_iff)
  then show ?thesis using assms by (simp add: pct_index_def)
qed

lemma pct_index_mono:
  assumes "0 \<le> K" and "K \<le> L"
  shows "pct_index n K \<le> pct_index n L"
proof -
  have "real n * K \<le> real n * L" using assms by (simp add: mult_left_mono)
  then have "\<lfloor>real n * K\<rfloor> \<le> \<lfloor>real n * L\<rfloor>" by (rule floor_mono)
  then show ?thesis by (simp add: pct_index_def)
qed

lemma py_index_pct:
  assumes "0 < length xs" and "0 \<le> K" and "K < 1"
  shows "py_index xs (py_int (real (length xs) * K)) = Inr (xs ! pct_index (length xs) K)"
proof -
  let ?n = "length xs"
  have nn: "0 \<le> real ?n * K" using assms by simp
  have lt: "pct_index ?n K < ?n" using assms by (rule pct_index_less)
  have fl: "0 \<le> \<lfloor>real ?n * K\<rfloor>" using nn by simp
  have "\<lfloor>real ?n * K\<rfloor> < int ?n"
    using lt fl by (simp add: pct_index_def)
  then show ?thesis
    using fl nn by (simp add: py_index_def py_int_nonneg pct_index_def Let_def)
qed

lemma calc_percentiles_nonempty:
  assumes "data \<noteq> []"
  shows "calc_percentiles data =
           Inr [''p50_ms'' \<mapsto> sort data ! pct_index (length data) 0.5,
                ''p90_ms'' \<mapsto> sort data ! pct_index (length data) 0.9,
                ''p99_ms'' \<mapsto> sort data ! pct_index (length data) 0.99]"
proof -
  have len: "0 < length (sort data)" using assms by simp
  have a: "py_index (sort data) (py_int (real (length (sort data)) * 0.5))
             = Inr (sort data ! pct_index (length (sort data)) 0.5)"
    using len by (rule py_index_pct) simp_all
  have b: "py_index (sort data) (py_int (real (length (sort data)) * 0.9))
             = Inr (sort data ! pct_index (length (sort data)) 0.9)"
    using len by (rule py_index_pct) simp_all
  have c: "py_index (sort data) (py_int (real (length (sort data)) * 0.99))
             = Inr (sort data ! pct_index (length (sort data)) 0.99)"
    using len by (rule py_index_pct) simp_all
  show ?thesis
    unfolding calc_percentiles_def Let_def using assms a b c by simp
qed

text \<open>
  Claim C4. For a non-empty list of latency samples the percentile computation returns
  the entries \<open>pK = sorted[\<lfloor>n * K\<rfloor>]\<close> for \<open>K\<close> = 0.5, 0.9 and 0.99, where
  \<open>sorted\<close> is the ascending sort and \<open>n\<close> the length; the three indices are in
  bounds, \<open>p50 \<le> p90 \<le> p99\<close>, and each value is a member of the input. For the
  empty list it returns the empty mapping.
\<close>

theorem calc_percentiles_law:
  "calc_percentiles [] = Inr Map.empty \<and>
   (data \<noteq> [] \<longrightarrow>
      (\<exists>p50 p90 p99.
         calc_percentiles data =
           Inr [''p50_ms'' \<mapsto> p50, ''p90_ms'' \<mapsto> p90, ''p99_ms'' \<mapsto> p99] \<and>
         p50 = sort data ! pct_index (length data) 0.5 \<and>
         p90 = sort data ! pct_index (length data) 0.9 \<and>
         p99 = sort data ! pct_index (length data) 0.99 \<and>
         pct_index (length data) 0.5 < length data \<and>
         pct_index (length data) 0.9 < length data \<and>
         pct_index (length data) 0.99 < length data \<and>
         p50 \<le> p90 \<and> p90 \<le> p99 \<and>
         p50 \<in> set data \<and> p90 \<in> set data \<and> p99 \<in> set data))"
proof (intro conjI impI)
  show "calc_percentiles [] = Inr Map.empty" by (simp add: calc_percentiles_def)
next
  assume ne: "data \<noteq> []"
  let ?n = "length data"
  let ?s = "sort data"
  have n: "0 < ?n" using ne by simp
  have i50: "pct_index ?n 0.5 < ?n" using n by (rule pct_index_less) simp_all
  have i90: "pct_index ?n 0.9 < ?n" using n by (rule pct_index_less) simp_all
  have i99: "pct_index ?n 0.99 < ?n" using n by (rule pct_index_less) simp_all
  have m1: "pct_index ?n 0.5 \<le> pct_index ?n 0.9" by (rule pct_index_mono) simp_all
  have m2: "pct_index ?n 0.9 \<le> pct_index ?n 0.99" by (rule pct_index_mono) simp_all
  have srt: "sorted ?s" by simp
  have o1: "?s ! pct_index ?n 0.5 \<le> ?s ! pct_index ?n 0.9"
    using srt m1 i90 by (simp add: sorted_nth_mono)
  have o2: "?s ! pct_index ?n 0.9 \<le> ?s ! pct_index ?n 0.99"
    using srt m2 i99 by (simp add: sorted_nth_mono)
  have mem: "?s ! i \<in> set data" if "i < ?n" for i
    using that nth_mem[of i "sort data"] by simp
  show "\<exists>p50 p90 p99.
         calc_percentiles data =
           Inr [''p50_ms'' \<mapsto> p50, ''p90_ms'' \<mapsto> p90, ''p99_ms'' \<mapsto> p99] \<and>
         p50 = sort data ! pct_index (length data) 0.5 \<and>
         p90 = sort data ! pct_index (length data) 0.9 \<and>
         p99 = sort data ! pct_index (length data) 0.99 \<and>
         pct_index (length data) 0.5 < length data \<and>
         pct_index (length data) 0.9 < length data \<and>
         pct_index (length data) 0.99 < length data \<and>
         p50 \<le> p90 \<and> p90 \<le> p99 \<and>
         p50 \<in> set data \<and> p90 \<in> set data \<and> p99 \<in> set data"
    using calc_percentiles_nonempty[OF ne] i50 i90 i99 o1 o2 mem[OF i50] mem[OF i90] mem[OF i99]
    by blast
qed

text \<open>
  The samples 1 to 10 ms, given out of order: \<open>p50 = 6\<close>, \<open>p90 = 10\<close>, \<open>p99 = 10\<close>.
\<close>

theorem calc_percentiles_law_witness:
  "[3, 1, 2, 10, 9, 8, 7, 6, 5, 4 :: real] \<noteq> [] \<and>
   calc_percentiles [3, 1, 2, 10, 9, 8, 7, 6, 5, 4] =
     Inr [''p50_ms'' \<mapsto> 6, ''p90_ms'' \<mapsto> 10, ''p99_ms'' \<mapsto> 10] \<and>
   pct_index (length [3, 1, 2, 10, 9, 8, 7, 6, 5, 4 :: real]) 0.5 = 5 \<and>
   pct_index (length [3, 1, 2, 10, 9, 8, 7, 6, 5, 4 :: real]) 0.9 = 9 \<and>
   pct_index (length [3, 1, 2, 10, 9, 8, 7, 6, 5, 4 :: real]) 0.99 = 9"
proof -
  have ne: "[3, 1, 2, 10, 9, 8, 7, 6, 5, 4 :: real] \<noteq> []" by simp
  have srt: "sort [3, 1, 2, 10, 9, 8, 7, 6, 5, 4 :: real] = [1, 2, 3, 4, 5, 6, 7, 8, 9, 10]"
    by simp
  have len: "length [3, 1, 2, 10, 9, 8, 7, 6, 5, 4 :: real] = 10" by simp
  have idx: "pct_index 10 0.5 = 5" "pct_index 10 0.9 = 9" "pct_index 10 0.99 = 9"
    by (simp_all add: pct_index_def)
  from calc_percentiles_law[of "[3, 1, 2, 10, 9, 8, 7, 6, 5, 4]"] ne
  obtain p50 p90 p99 where
    r: "calc_percentiles [3, 1, 2, 10, 9, 8, 7, 6, 5, 4] =
          Inr [''p50_ms'' \<mapsto> p50, ''p90_ms'' \<mapsto> p90, ''p99_ms'' \<mapsto> p99]"
    and a: "p50 = sort [3, 1, 2, 10, 9, 8, 7, 6, 5, 4] ! pct_index (length [3, 1, 2, 10, 9, 8, 7, 6, 5, 4 :: real]) 0.5"
    and b: "p90 = sort [3, 1, 2, 10, 9, 8, 7, 6, 5, 4] ! pct_index (length [3, 1, 2, 10, 9, 8, 7, 6, 5, 4 :: real]) 0.9"
    and c: "p99 = sort [3, 1, 2, 10, 9, 8, 7, 6, 5, 4] ! pct_index (length [3, 1, 2, 10, 9, 8, 7, 6, 5, 4 :: real]) 0.99"
    by blast
  have "p50 = 6" unfolding a srt len idx by simp
  moreover have "p90 = 10" unfolding b srt len idx by simp
  moreover have "p99 = 10" unfolding c srt len idx by simp
  ultimately show ?thesis using r ne unfolding len idx by simp
qed

section \<open>The two variants share the core\<close>

text \<open>
  Claim C10. The flat and the optimized variant implement the shared core identically:
  their percentile computations return equal results for every input list, and their
  metric derivations return equal metrics for every pair of snapshots.
\<close>

theorem variants_agree:
  "opt_calc_percentiles = calc_percentiles \<and> opt_get_metrics = get_metrics"
proof
  show "opt_calc_percentiles = calc_percentiles"
    by (rule ext) (simp only: opt_calc_percentiles_def calc_percentiles_def)
next
  show "opt_get_metrics = get_metrics"
  proof (intro ext)
    fix s e :: snapshot
    show "opt_get_metrics s e = get_metrics s e"
      unfolding opt_get_metrics_def get_metrics_def cpu_load_pct_def duration_def
        delta_total_def delta_idle_def read_bytes_def write_bytes_def Let_def
      by (rule refl)
  qed
qed

section \<open>Resource monitor: properties\<close>

lemma duration_positive: "0 < duration s e"
  by (simp add: duration_def Let_def)

lemma cpu_load_pct_value:
  "cpu_load_pct s e =
     Inr (if 0 < delta_total s e then 100 * (1 - delta_idle s e / delta_total s e) else 0)"
  by (simp add: cpu_load_pct_def py_truediv_def)

lemma py_round2_zero: "py_round2 0 = 0"
  by (simp add: py_round2_def round_half_even_def)

lemma get_metrics_value:
  "get_metrics s e =
     Inr \<lparr>cpu_load_percent =
            py_round2 (if 0 < delta_total s e
                       then 100 * (1 - delta_idle s e / delta_total s e) else 0),
          memory_used_gb = py_round2 (of_int (mem_used_kb e) / (1024 * 1024)),
          disk_read_mb_s = py_round2 ((of_int (read_bytes s e) / duration s e) / (1024 * 1024)),
          disk_write_mb_s =
            py_round2 ((of_int (write_bytes s e) / duration s e) / (1024 * 1024))\<rparr>"
proof -
  have d: "duration s e \<noteq> 0" using duration_positive[of s e] by simp
  show ?thesis
    unfolding get_metrics_def cpu_load_pct_value py_truediv_def using d by simp
qed

text \<open>
  Claim C7. For every pair of snapshots, the CPU load is
  \<open>100 * (1 - \<Delta>idle / \<Delta>total)\<close> when \<open>\<Delta>total > 0\<close> and 0 when
  \<open>\<Delta>total \<le> 0\<close>; a measured duration \<open>\<le> 0\<close> is replaced by 1 second, so the
  duration divided by is positive, no division by zero occurs (the derivation returns
  metrics, never an error), and the disk throughput is \<open>\<Delta>bytes / duration\<close>,
  scaled to MiB. The reported values are these, rounded to two decimals.
\<close>

theorem get_metrics_derivation:
  "(0 < cpu_total e - cpu_total s \<longrightarrow>
      cpu_load_pct s e =
        Inr (100 * (1 - (cpu_idle e - cpu_idle s) / (cpu_total e - cpu_total s)))) \<and>
   (cpu_total e - cpu_total s \<le> 0 \<longrightarrow> cpu_load_pct s e = Inr 0) \<and>
   (time e - time s \<le> 0 \<longrightarrow> duration s e = 1) \<and>
   (0 < time e - time s \<longrightarrow> duration s e = time e - time s) \<and>
   0 < duration s e \<and>
   (\<exists>cpu. cpu_load_pct s e = Inr cpu \<and>
      get_metrics s e =
        Inr \<lparr>cpu_load_percent = py_round2 cpu,
             memory_used_gb = py_round2 (of_int (mem_used_kb e) / (1024 * 1024)),
             disk_read_mb_s =
               py_round2 ((of_int (disk_read_bytes e - disk_read_bytes s) / duration s e)
                          / (1024 * 1024)),
             disk_write_mb_s =
               py_round2 ((of_int (disk_write_bytes e - disk_write_bytes s) / duration s e)
                          / (1024 * 1024))\<rparr> \<and>
      (cpu_total e - cpu_total s \<le> 0 \<longrightarrow> cpu = 0 \<and> py_round2 cpu = 0))"
proof (intro conjI impI)
  show "cpu_load_pct s e =
          Inr (100 * (1 - (cpu_idle e - cpu_idle s) / (cpu_total e - cpu_total s)))"
    if "0 < cpu_total e - cpu_total s"
    using that by (simp add: cpu_load_pct_value delta_total_def delta_idle_def)
  show "cpu_load_pct s e = Inr 0" if "cpu_total e - cpu_total s \<le> 0"
    using that by (simp add: cpu_load_pct_value delta_total_def)
  show "duration s e = 1" if "time e - time s \<le> 0"
    using that by (simp add: duration_def Let_def)
  show "duration s e = time e - time s" if "0 < time e - time s"
    using that by (simp add: duration_def Let_def)
  show "0 < duration s e" by (rule duration_positive)
  let ?cpu = "if 0 < delta_total s e then 100 * (1 - delta_idle s e / delta_total s e) else 0"
  have a: "cpu_load_pct s e = Inr ?cpu" by (rule cpu_load_pct_value)
  have b: "get_metrics s e =
        Inr \<lparr>cpu_load_percent = py_round2 ?cpu,
             memory_used_gb = py_round2 (of_int (mem_used_kb e) / (1024 * 1024)),
             disk_read_mb_s =
               py_round2 ((of_int (disk_read_bytes e - disk_read_bytes s) / duration s e)
                          / (1024 * 1024)),
             disk_write_mb_s =
               py_round2 ((of_int (disk_write_bytes e - disk_write_bytes s) / duration s e)
                          / (1024 * 1024))\<rparr>"
    using get_metrics_value[of s e] by (simp only: read_bytes_def write_bytes_def)
  have c: "cpu_total e - cpu_total s \<le> 0 \<longrightarrow> ?cpu = 0 \<and> py_round2 ?cpu = 0"
    by (simp add: delta_total_def py_round2_zero)
  show "\<exists>cpu. cpu_load_pct s e = Inr cpu \<and>
      get_metrics s e =
        Inr \<lparr>cpu_load_percent = py_round2 cpu,
             memory_used_gb = py_round2 (of_int (mem_used_kb e) / (1024 * 1024)),
             disk_read_mb_s =
               py_round2 ((of_int (disk_read_bytes e - disk_read_bytes s) / duration s e)
                          / (1024 * 1024)),
             disk_write_mb_s =
               py_round2 ((of_int (disk_write_bytes e - disk_write_bytes s) / duration s e)
                          / (1024 * 1024))\<rparr> \<and>
      (cpu_total e - cpu_total s \<le> 0 \<longrightarrow> cpu = 0 \<and> py_round2 cpu = 0)"
    using a b c by blast
qed

text \<open>
  Between the two sample snapshots the load is 50 percent and the disks read 10 MiB/s
  and wrote 2 MiB/s; between a snapshot and itself both deltas are 0: the load is 0
  and the duration is 1.
\<close>

theorem get_metrics_derivation_witness:
  "0 < cpu_total sample_end - cpu_total sample_start \<and>
   cpu_load_pct sample_start sample_end = Inr 50 \<and>
   0 < time sample_end - time sample_start \<and>
   duration sample_start sample_end = 10 \<and>
   get_metrics sample_start sample_end =
     Inr \<lparr>cpu_load_percent = 50, memory_used_gb = 2, disk_read_mb_s = 10,
          disk_write_mb_s = 2\<rparr> \<and>
   cpu_total sample_start - cpu_total sample_start \<le> 0 \<and>
   cpu_load_pct sample_start sample_start = Inr 0 \<and>
   time sample_start - time sample_start \<le> 0 \<and>
   duration sample_start sample_start = 1 \<and>
   get_metrics sample_start sample_start =
     Inr \<lparr>cpu_load_percent = 0, memory_used_gb = 1, disk_read_mb_s = 0,
          disk_write_mb_s = 0\<rparr>"
proof -
  have r: "py_round2 50 = 50" "py_round2 2 = 2" "py_round2 10 = 10" "py_round2 1 = 1"
    "py_round2 0 = 0"
    by (simp_all add: py_round2_def round_half_even_def)
  have v: "cpu_total sample_end - cpu_total sample_start = 200"
    "cpu_idle sample_end - cpu_idle sample_start = 100"
    "time sample_end - time sample_start = 10"
    "disk_read_bytes sample_end - disk_read_bytes sample_start = 104857600"
    "disk_write_bytes sample_end - disk_write_bytes sample_start = 20971520"
    "mem_used_kb sample_end = 2097152" "mem_used_kb sample_start = 1048576"
    by (simp_all add: sample_start_def sample_end_def)
  note a = get_metrics_derivation[where s = sample_start and e = sample_end, unfolded v]
  note b = get_metrics_derivation[where s = sample_start and e = sample_start]
  have d: "duration sample_start sample_end = 10" using a by simp
  have c: "cpu_load_pct sample_start sample_end = Inr 50" using a by simp
  have g: "get_metrics sample_start sample_end =
     Inr \<lparr>cpu_load_percent = 50, memory_used_gb = 2, disk_read_mb_s = 10,
          disk_write_mb_s = 2\<rparr>"
    using a unfolding c d by (simp add: r)
  have d0: "duration sample_start sample_start = 1" using b by simp
  have c0: "cpu_load_pct sample_start sample_start = Inr 0" using b by simp
  have g0: "get_metrics sample_start sample_start =
     Inr \<lparr>cpu_load_percent = 0, memory_used_gb = 1, disk_read_mb_s = 0,
          disk_write_mb_s = 0\<rparr>"
    using b unfolding c0 d0 by (simp add: r v)
  show ?thesis using c d g c0 d0 g0 by (simp add: v)
qed

lemma read_proc_file_missing: "proc_files h path = None \<Longrightarrow> read_proc_file h path = []"
  by (simp add: read_proc_file_def)

lemma py_splitlines_empty: "py_splitlines [] = []"
  by (simp add: py_splitlines_def)

lemma get_cpu_times_missing:
  "proc_files h ''/proc/stat'' = None \<Longrightarrow> get_cpu_times h = Inr (0, 0)"
  by (simp add: get_cpu_times_def read_proc_file_missing py_splitlines_empty)

lemma get_disk_io_missing:
  "proc_files h ''/proc/diskstats'' = None \<Longrightarrow> get_disk_io h = Inr (0, 0)"
  by (simp add: get_disk_io_def read_proc_file_missing py_splitlines_empty)

lemma get_mem_info_missing:
  "proc_files h ''/proc/meminfo'' = None \<Longrightarrow> get_mem_info h = Inr (0, 0)"
  by (simp add: get_mem_info_def read_proc_file_missing py_splitlines_empty)

text \<open>
  Claim C8. When the counter files under \<^verbatim>\<open>/proc\<close> are missing or unreadable, a
  snapshot capture returns normally with all raw fields (CPU total and idle, disk bytes
  read and written, memory total and used) equal to 0; so constructing the monitor,
  stopping it and deriving the metrics return normally as well: no error is raised.
\<close>

theorem capture_stats_degrades:
  assumes "proc_files h ''/proc/stat'' = None"
    and "proc_files h ''/proc/diskstats'' = None"
    and "proc_files h ''/proc/meminfo'' = None"
  shows "capture_stats h =
           Inr \<lparr>time = clock h, cpu_total = 0, cpu_idle = 0, disk_read_bytes = 0,
                disk_write_bytes = 0, mem_total_kb = 0, mem_used_kb = 0\<rparr> \<and>
         (\<exists>m. new_monitor h = Inr m) \<and>
         (\<exists>m'. stop h m = Inr m') \<and>
         (\<exists>r. monitor_get_metrics h m = Inr r)"
proof -
  let ?z = "\<lparr>time = clock h, cpu_total = 0, cpu_idle = 0, disk_read_bytes = 0,
             disk_write_bytes = 0, mem_total_kb = 0, mem_used_kb = 0\<rparr>"
  have cap: "capture_stats h = Inr ?z"
    using assms
    by (simp add: capture_stats_def get_cpu_times_missing get_disk_io_missing
        get_mem_info_missing)
  have new: "\<exists>m. new_monitor h = Inr m" by (simp add: new_monitor_def cap)
  have stp: "\<exists>m'. stop h m = Inr m'" by (simp add: stop_def cap)
  have met: "\<exists>r. monitor_get_metrics h m = Inr r"
    by (cases "end_stats m") (simp_all add: monitor_get_metrics_def cap get_metrics_value)
  show ?thesis using cap new stp met by blast
qed

text \<open>A host without \<^verbatim>\<open>/proc\<close>, at clock 5, and a monitor started on it.\<close>

theorem capture_stats_degrades_witness:
  "proc_files bare_host ''/proc/stat'' = None \<and>
   proc_files bare_host ''/proc/diskstats'' = None \<and>
   proc_files bare_host ''/proc/meminfo'' = None \<and>
   capture_stats bare_host =
     Inr \<lparr>time = 5, cpu_total = 0, cpu_idle = 0, disk_read_bytes = 0,
          disk_write_bytes = 0, mem_total_kb = 0, mem_used_kb = 0\<rparr> \<and>
   (\<exists>r. monitor_get_metrics bare_host \<lparr>start_stats = sample_start, end_stats = None\<rparr> = Inr r)"
proof -
  have f: "proc_files bare_host ''/proc/stat'' = None"
    "proc_files bare_host ''/proc/diskstats'' = None"
    "proc_files bare_host ''/proc/meminfo'' = None"
    by (simp_all add: bare_host_def)
  have c: "clock bare_host = 5" by (simp add: bare_host_def)
  show ?thesis
    using capture_stats_degrades[OF f, of "\<lparr>start_stats = sample_start, end_stats = None\<rparr>"] f
    by (simp add: c)
qed

section \<open>Batch import: properties\<close>

lemma attempts_Nil: "attempts [] = 0"
  by (simp add: attempts_def)

lemma attempts_snoc_Execute: "attempts (tr @ [Execute out]) = Suc (attempts tr)"
  by (simp add: attempts_def is_execute_def)

lemma attempts_snoc_backoff: "attempts (tr @ [Warn, Sleep d]) = attempts tr"
  by (simp add: attempts_def is_execute_def)

lemma total_sleep_Nil: "total_sleep [] = 0"
  by (simp add: total_sleep_def)

lemma total_sleep_snoc_Execute: "total_sleep (tr @ [Execute out]) = total_sleep tr"
  by (simp add: total_sleep_def sleep_seconds_def)

lemma total_sleep_snoc_backoff: "total_sleep (tr @ [Warn, Sleep d]) = total_sleep tr + d"
  by (simp add: total_sleep_def sleep_seconds_def)

text \<open>One turn of the loop, by what the store does.\<close>

lemma run_batch_loop_done:
  "retries st \<le> 0 \<Longrightarrow> run_batch_loop store st = (Inl ImportFailed, st)"
  by (subst run_batch_loop.simps) simp

lemma run_batch_loop_committed:
  "0 < retries st \<Longrightarrow> store (attempts (trace st)) = Committed \<Longrightarrow>
     run_batch_loop store st = (Inr (), st\<lparr>trace := trace st @ [Execute Committed]\<rparr>)"
  by (subst run_batch_loop.simps) (simp add: Let_def)

lemma run_batch_loop_other:
  "0 < retries st \<Longrightarrow> store (attempts (trace st)) = OtherError msg \<Longrightarrow>
     run_batch_loop store st =
       (Inl (StoreError msg), st\<lparr>trace := trace st @ [Execute (OtherError msg)]\<rparr>)"
  by (subst run_batch_loop.simps) (simp add: Let_def)

lemma run_batch_loop_retry:
  "0 < retries st \<Longrightarrow> retryable (store (attempts (trace st))) \<Longrightarrow>
     run_batch_loop store st =
       run_batch_loop store
         (st\<lparr>retries := retries st - 1,
             trace := trace st @ [Execute (store (attempts (trace st))), Warn, Sleep 2]\<rparr>)"
  by (subst run_batch_loop.simps) (auto simp: Let_def retryable_def)

text \<open>
  Three failures of the retryable kind in a row, whatever the store would do later:
  three executions, each followed by a warning and a sleep of 2 seconds, then the
  fatal error.
\<close>

lemma run_batch_three_transient:
  assumes "retryable (store 0)" and "retryable (store 1)" and "retryable (store 2)"
  shows "run_batch store =
           (Inl ImportFailed,
            \<lparr>retries = 0,
             trace = [Execute (store 0), Warn, Sleep 2,
                      Execute (store 1), Warn, Sleep 2,
                      Execute (store 2), Warn, Sleep 2]\<rparr>)"
proof -
  let ?t1 = "[Execute (store 0), Warn, Sleep 2]"
  let ?t2 = "?t1 @ [Execute (store 1), Warn, Sleep 2]"
  let ?t3 = "?t2 @ [Execute (store 2), Warn, Sleep 2]"
  have a1: "attempts ?t1 = 1" by (simp add: attempts_def is_execute_def)
  have a2: "attempts ?t2 = 2" by (simp add: attempts_def is_execute_def)
  have "run_batch store = run_batch_loop store \<lparr>retries = 2, trace = ?t1\<rparr>"
    unfolding run_batch_def
    using assms(1) by (subst run_batch_loop_retry) (simp_all add: attempts_Nil)
  also have "\<dots> = run_batch_loop store \<lparr>retries = 1, trace = ?t2\<rparr>"
    using assms(2) by (subst run_batch_loop_retry) (simp_all add: a1)
  also have "\<dots> = run_batch_loop store \<lparr>retries = 0, trace = ?t3\<rparr>"
    using assms(3) a2 by (subst run_batch_loop_retry) simp_all
  also have "\<dots> = (Inl ImportFailed, \<lparr>retries = 0, trace = ?t3\<rparr>)"
    by (rule run_batch_loop_done) simp
  finally show ?thesis by simp
qed

text \<open>
  A failure of the retryable kind and then a success: one backoff, before the second
  execution, and nothing after the success.
\<close>

lemma run_batch_second_attempt_succeeds:
  assumes "retryable (store 0)" and "store 1 = Committed"
  shows "run_batch store =
           (Inr (),
            \<lparr>retries = 2,
             trace = [Execute (store 0), Warn, Sleep 2, Execute Committed]\<rparr>)"
proof -
  let ?t1 = "[Execute (store 0), Warn, Sleep 2]"
  have a1: "attempts ?t1 = 1" by (simp add: attempts_def is_execute_def)
  have "run_batch store = run_batch_loop store \<lparr>retries = 2, trace = ?t1\<rparr>"
    unfolding run_batch_def
    using assms(1) by (subst run_batch_loop_retry) (simp_all add: attempts_Nil)
  also have "\<dots> = (Inr (), \<lparr>retries = 2, trace = ?t1 @ [Execute Committed]\<rparr>)"
    using assms(2) by (subst run_batch_loop_committed) (simp_all add: a1)
  finally show ?thesis by simp
qed

text \<open>
  Claim C1, on a store that fails with a transient error at every attempt. The import
  executes exactly three times and raises the fatal error, as the claim says; but it
  sleeps after each of the three failures, also after the last one, which no retry
  follows: 6 seconds of backoff, not the 4 seconds (2 seconds for each of the 2
  retries) of the claim.
\<close>

theorem run_batch_always_transient:
  "run_batch (\<lambda>k. TransientError) =
     (Inl ImportFailed,
      \<lparr>retries = 0,
       trace = [Execute TransientError, Warn, Sleep 2,
                Execute TransientError, Warn, Sleep 2,
                Execute TransientError, Warn, Sleep 2]\<rparr>) \<and>
   attempts (trace (snd (run_batch (\<lambda>k. TransientError)))) = 3 \<and>
   total_sleep (trace (snd (run_batch (\<lambda>k. TransientError)))) = 6 \<and>
   last (trace (snd (run_batch (\<lambda>k. TransientError)))) = Sleep 2"
proof -
  have r: "run_batch (\<lambda>k. TransientError) =
     (Inl ImportFailed,
      \<lparr>retries = 0,
       trace = [Execute TransientError, Warn, Sleep 2,
                Execute TransientError, Warn, Sleep 2,
                Execute TransientError, Warn, Sleep 2]\<rparr>)"
    using run_batch_three_transient[of "\<lambda>k. TransientError"] by (simp add: retryable_def)
  show ?thesis
    unfolding r by (simp add: attempts_def is_execute_def total_sleep_def sleep_seconds_def)
qed

text \<open>
  Claim C9. A store error that is not of the transient or unavailable kind is not
  retried: it leaves the loop at once, with no warning and no sleep, and the retry
  budget as it was. On the first attempt of a batch import: one execution, no sleep,
  \<open>retries\<close> still 3.
\<close>

theorem non_transient_propagates:
  "(store 0 = OtherError msg \<longrightarrow>
      run_batch store =
        (Inl (StoreError msg), \<lparr>retries = 3, trace = [Execute (OtherError msg)]\<rparr>) \<and>
      attempts (trace (snd (run_batch store))) = 1 \<and>
      total_sleep (trace (snd (run_batch store))) = 0) \<and>
   (0 < retries st \<and> store (attempts (trace st)) = OtherError msg \<longrightarrow>
      run_batch_loop store st =
        (Inl (StoreError msg), st\<lparr>trace := trace st @ [Execute (OtherError msg)]\<rparr>))"
proof (intro conjI impI)
  assume s0: "store 0 = OtherError msg"
  show r: "run_batch store =
        (Inl (StoreError msg), \<lparr>retries = 3, trace = [Execute (OtherError msg)]\<rparr>)"
    unfolding run_batch_def
    using s0 by (subst run_batch_loop_other[where msg = msg]) (simp_all add: attempts_Nil)
  show "attempts (trace (snd (run_batch store))) = 1"
    unfolding r by (simp add: attempts_def is_execute_def)
  show "total_sleep (trace (snd (run_batch store))) = 0"
    unfolding r by (simp add: total_sleep_def sleep_seconds_def)
next
  assume "0 < retries st \<and> store (attempts (trace st)) = OtherError msg"
  then show "run_batch_loop store st =
        (Inl (StoreError msg), st\<lparr>trace := trace st @ [Execute (OtherError msg)]\<rparr>)"
    by (simp add: run_batch_loop_other)
qed

text \<open>
  A constraint violation on the first attempt; and one on the second attempt, after a
  transient failure.
\<close>

theorem non_transient_propagates_witness:
  "(\<lambda>k. OtherError ''constraint'') (0::nat) = OtherError ''constraint'' \<and>
   run_batch (\<lambda>k. OtherError ''constraint'') =
     (Inl (StoreError ''constraint''),
      \<lparr>retries = 3, trace = [Execute (OtherError ''constraint'')]\<rparr>) \<and>
   0 < retries \<lparr>retries = 2, trace = [Execute TransientError, Warn, Sleep 2]\<rparr> \<and>
   run_batch_loop (\<lambda>k. OtherError ''constraint'')
       \<lparr>retries = 2, trace = [Execute TransientError, Warn, Sleep 2]\<rparr> =
     (Inl (StoreError ''constraint''),
      \<lparr>retries = 2,
       trace = [Execute TransientError, Warn, Sleep 2, Execute (OtherError ''constraint'')]\<rparr>)"
  using non_transient_propagates[where store = "\<lambda>k. OtherError ''constraint''"
      and msg = "''constraint''"
      and st = "\<lparr>retries = 2, trace = [Execute TransientError, Warn, Sleep 2]\<rparr>"]
  by simp

section \<open>Concurrency load test: a lost update\<close>

text \<open>
  Claim C2, on two workers whose steps interleave. Each worker completes one
  successful lookup and both threads are joined, yet the shared counter ends at 1 and
  not at 2, the sum of what the workers completed: the second write overwrites the
  first. The same happens to the error counter when both calls fail. The counters are
  not updated atomically, nor kept per worker and merged at the join.
\<close>

theorem shared_counter_loses_update:
  "all_joined (run_schedule lost_update_schedule (start_load_test 2)) \<and>
   sum_worker_ops (run_schedule lost_update_schedule (start_load_test 2)) = 2 \<and>
   ops (run_schedule lost_update_schedule (start_load_test 2)) = 1 \<and>
   all_joined (run_schedule lost_error_schedule (start_load_test 2)) \<and>
   sum_worker_errors (run_schedule lost_error_schedule (start_load_test 2)) = 2 \<and>
   errors (run_schedule lost_error_schedule (start_load_test 2)) = 1"
  by code_simp

section \<open>Batching loop: properties\<close>

lemma consume_Exhausted: "consume mk count bs Exhausted = ([], Exhausted)"
  by (simp add: consume.simps)

text \<open>The three ways through one turn of the loop.\<close>

lemma consume_stop:
  "\<not> int i < count \<Longrightarrow>
     consume mk count bs (Suspended i batch) =
       (if batch \<noteq> [] then ([batch], Exhausted) else ([], Exhausted))"
  by (subst consume.simps) simp

lemma consume_yield:
  "int i < count \<Longrightarrow> bs \<le> int (length (batch @ [mk i])) \<Longrightarrow>
     consume mk count bs (Suspended i batch) =
       ((batch @ [mk i]) # fst (consume mk count bs (Suspended (Suc i) [])),
        snd (consume mk count bs (Suspended (Suc i) [])))"
  by (subst consume.simps) (simp add: Let_def case_prod_unfold)

lemma consume_gather:
  "int i < count \<Longrightarrow> \<not> bs \<le> int (length (batch @ [mk i])) \<Longrightarrow>
     consume mk count bs (Suspended i batch) =
       consume mk count bs (Suspended (Suc i) (batch @ [mk i]))"
  by (subst consume.simps) (simp add: Let_def)

lemma gen_next_stop:
  "\<not> int i < count \<Longrightarrow>
     gen_next mk count bs (Suspended i batch) =
       (if batch \<noteq> [] then (Some batch, Exhausted) else (None, Exhausted))"
  by (subst gen_next.simps) simp

lemma gen_next_yield:
  "int i < count \<Longrightarrow> bs \<le> int (length (batch @ [mk i])) \<Longrightarrow>
     gen_next mk count bs (Suspended i batch) = (Some (batch @ [mk i]), Suspended (Suc i) [])"
  by (subst gen_next.simps) (simp add: Let_def)

lemma gen_next_gather:
  "int i < count \<Longrightarrow> \<not> bs \<le> int (length (batch @ [mk i])) \<Longrightarrow>
     gen_next mk count bs (Suspended i batch) =
       gen_next mk count bs (Suspended (Suc i) (batch @ [mk i]))"
  by (subst gen_next.simps) (simp add: Let_def)

lemma upt_step: "int i < count \<Longrightarrow> [i..<nat count] = i # [Suc i..<nat count]"
  by (simp add: upt_conv_Cons)

lemma upt_done: "\<not> int i < count \<Longrightarrow> [i..<nat count] = []"
  by simp

lemma consume_final: "snd (consume mk count bs st) = Exhausted"
proof (induction mk count bs st rule: consume.induct)
  case (1 mk count batch_size)
  show ?case by (simp add: consume_Exhausted)
next
  case (2 mk count batch_size i batch)
  show ?case
  proof (cases "int i < count")
    case False
    then show ?thesis by (simp add: consume_stop)
  next
    case lt: True
    show ?thesis
    proof (cases "batch_size \<le> int (length (batch @ [mk i]))")
      case True
      show ?thesis
        using "2.IH"(1)[OF lt refl True] by (simp add: consume_yield[where mk = mk, OF lt True])
    next
      case False
      show ?thesis
        using "2.IH"(2)[OF lt refl False] by (simp add: consume_gather[where mk = mk, OF lt False])
    qed
  qed
qed

text \<open>No record is lost or reordered, whatever the batch size.\<close>

lemma consume_concat: "concat (fst (consume mk count bs st)) = pending mk count st"
proof (induction mk count bs st rule: consume.induct)
  case (1 mk count batch_size)
  show ?case by (simp add: consume_Exhausted)
next
  case (2 mk count batch_size i batch)
  show ?case
  proof (cases "int i < count")
    case False
    then show ?thesis by (simp add: consume_stop)
  next
    case lt: True
    show ?thesis
    proof (cases "batch_size \<le> int (length (batch @ [mk i]))")
      case True
      show ?thesis
        using "2.IH"(1)[OF lt refl True]
        by (simp add: consume_yield[where mk = mk, OF lt True] upt_step[OF lt])
    next
      case False
      show ?thesis
        using "2.IH"(2)[OF lt refl False]
        by (simp add: consume_gather[where mk = mk, OF lt False] upt_step[OF lt])
    qed
  qed
qed

text \<open>No yielded batch is empty.\<close>

lemma consume_nonempty: "b \<in> set (fst (consume mk count bs st)) \<Longrightarrow> b \<noteq> []"
proof (induction mk count bs st rule: consume.induct)
  case (1 mk count batch_size)
  then show ?case by (simp add: consume_Exhausted)
next
  case (2 mk count batch_size i batch)
  show ?case
  proof (cases "int i < count")
    case False
    then show ?thesis using "2.prems" by (auto simp: consume_stop split: if_splits)
  next
    case lt: True
    show ?thesis
    proof (cases "batch_size \<le> int (length (batch @ [mk i]))")
      case True
      from "2.prems" have
        "b = batch @ [mk i] \<or> b \<in> set (fst (consume mk count batch_size (Suspended (Suc i) [])))"
        by (simp add: consume_yield[where mk = mk, OF lt True])
      then show ?thesis using "2.IH"(1)[OF lt refl True] by auto
    next
      case False
      from "2.prems" have
        "b \<in> set (fst (consume mk count batch_size (Suspended (Suc i) (batch @ [mk i]))))"
        by (simp add: consume_gather[where mk = mk, OF lt False])
      then show ?thesis by (rule "2.IH"(2)[OF lt refl False])
    qed
  qed
qed

text \<open>
  With a positive batch size and fewer records gathered than a batch holds, every batch
  has at most the batch size, and every batch but the last has exactly that size.
\<close>

lemma consume_sizes:
  "0 < bs \<Longrightarrow> int (gathered st) < bs \<Longrightarrow>
     (\<forall>b \<in> set (fst (consume mk count bs st)). int (length b) \<le> bs) \<and>
     (\<forall>b \<in> set (butlast (fst (consume mk count bs st))). int (length b) = bs)"
proof (induction mk count bs st rule: consume.induct)
  case (1 mk count batch_size)
  show ?case by (simp add: consume_Exhausted)
next
  case (2 mk count batch_size i batch)
  have pos: "0 < batch_size" and small: "int (length batch) < batch_size"
    using "2.prems" by simp_all
  show ?case
  proof (cases "int i < count")
    case False
    then show ?thesis using small by (simp add: consume_stop)
  next
    case lt: True
    show ?thesis
    proof (cases "batch_size \<le> int (length (batch @ [mk i]))")
      case True
      let ?rest = "fst (consume mk count batch_size (Suspended (Suc i) []))"
      have full: "int (length (batch @ [mk i])) = batch_size"
        using True small by simp
      have ih: "(\<forall>b \<in> set ?rest. int (length b) \<le> batch_size) \<and>
                (\<forall>b \<in> set (butlast ?rest). int (length b) = batch_size)"
        using pos by (intro "2.IH"(1)[OF lt refl True]) simp_all
      have eq: "fst (consume mk count batch_size (Suspended i batch)) = (batch @ [mk i]) # ?rest"
        by (simp add: consume_yield[where mk = mk, OF lt True])
      show ?thesis
        unfolding eq using ih full by (auto split: if_splits)
    next
      case False
      let ?rest = "fst (consume mk count batch_size (Suspended (Suc i) (batch @ [mk i])))"
      have ih: "(\<forall>b \<in> set ?rest. int (length b) \<le> batch_size) \<and>
                (\<forall>b \<in> set (butlast ?rest). int (length b) = batch_size)"
        using pos False by (intro "2.IH"(2)[OF lt refl False]) simp_all
      show ?thesis unfolding consume_gather[where mk = mk, OF lt False] by (rule ih)
    qed
  qed
qed

text \<open>
  \<open>consume\<close> is \<open>gen_next\<close> called until it gives nothing: the batches of the
  \<^verbatim>\<open>for\<close> loop are the batches the generator yields, one call after the other.
\<close>

lemma consume_gen_next:
  "consume mk count bs st =
     (case gen_next mk count bs st of
        (None, st') \<Rightarrow> ([], st')
      | (Some b, st') \<Rightarrow> (b # fst (consume mk count bs st'), snd (consume mk count bs st')))"
proof (induction mk count bs st rule: gen_next.induct)
  case (1 mk count batch_size)
  show ?case by (simp add: gen_next.simps consume_Exhausted)
next
  case (2 mk count batch_size i batch)
  show ?case
  proof (cases "int i < count")
    case False
    then show ?thesis by (simp add: consume_stop gen_next_stop consume_Exhausted)
  next
    case lt: True
    show ?thesis
    proof (cases "batch_size \<le> int (length (batch @ [mk i]))")
      case True
      show ?thesis by (simp add: consume_yield[where mk = mk, OF lt True] gen_next_yield[where mk = mk, OF lt True])
    next
      case False
      show ?thesis
        unfolding consume_gather[where mk = mk, OF lt False] gen_next_gather[where mk = mk, OF lt False]
        by (rule "2.IH"[OF lt refl False])
    qed
  qed
qed

lemma consume_fresh:
  assumes "0 < bs"
  shows "snd (consume mk count bs (Suspended 0 [])) = Exhausted"
    and "concat (fst (consume mk count bs (Suspended 0 []))) = map mk [0..<nat count]"
    and "length (concat (fst (consume mk count bs (Suspended 0 [])))) = nat count"
    and "\<forall>b \<in> set (butlast (fst (consume mk count bs (Suspended 0 [])))). int (length b) = bs"
    and "\<forall>b \<in> set (fst (consume mk count bs (Suspended 0 []))). b \<noteq> [] \<and> int (length b) \<le> bs"
proof -
  let ?bss = "fst (consume mk count bs (Suspended 0 []))"
  show "snd (consume mk count bs (Suspended 0 [])) = Exhausted" by (rule consume_final)
  show c: "concat ?bss = map mk [0..<nat count]" by (simp add: consume_concat)
  show "length (concat ?bss) = nat count" unfolding c by simp
  have s: "(\<forall>b \<in> set ?bss. int (length b) \<le> bs) \<and> (\<forall>b \<in> set (butlast ?bss). int (length b) = bs)"
    using assms by (intro consume_sizes) simp_all
  show "\<forall>b \<in> set (butlast ?bss). int (length b) = bs" using s by blast
  show "\<forall>b \<in> set ?bss. b \<noteq> [] \<and> int (length b) \<le> bs"
    using s consume_nonempty[of _ mk count bs "Suspended 0 []"] by blast
qed

lemma consume_five_by_three:
  "fst (consume mk 5 3 (Suspended 0 [])) = [[mk 0, mk 1, mk 2], [mk 3, mk 4]]"
proof -
  have "consume mk 5 3 (Suspended 0 []) = consume mk 5 3 (Suspended 1 [mk 0])"
    by (subst consume_gather) (simp_all add: eval_nat_numeral)
  also have "\<dots> = consume mk 5 3 (Suspended 2 [mk 0, mk 1])"
    by (subst consume_gather) (simp_all add: eval_nat_numeral)
  also have "\<dots> = ([mk 0, mk 1, mk 2] # fst (consume mk 5 3 (Suspended 3 [])),
                     snd (consume mk 5 3 (Suspended 3 [])))"
    by (subst consume_yield) (simp_all add: eval_nat_numeral)
  finally have a: "fst (consume mk 5 3 (Suspended 0 [])) =
                     [mk 0, mk 1, mk 2] # fst (consume mk 5 3 (Suspended 3 []))"
    by simp
  have "consume mk 5 3 (Suspended 3 []) = consume mk 5 3 (Suspended 4 [mk 3])"
    by (subst consume_gather) (simp_all add: eval_nat_numeral)
  also have "\<dots> = consume mk 5 3 (Suspended 5 [mk 3, mk 4])"
    by (subst consume_gather) (simp_all add: eval_nat_numeral)
  also have "\<dots> = ([[mk 3, mk 4]], Exhausted)"
    by (subst consume_stop) (simp_all add: eval_nat_numeral)
  finally have b: "fst (consume mk 5 3 (Suspended 3 [])) = [[mk 3, mk 4]]"
    by simp
  show ?thesis unfolding a b by simp
qed

lemma small_generator_transactions:
  "fst (generate_transactions small_generator randoms 3) =
     [[transaction_record small_generator randoms 0,
       transaction_record small_generator randoms 1,
       transaction_record small_generator randoms 2],
      [transaction_record small_generator randoms 3,
       transaction_record small_generator randoms 4]]"
proof -
  have "num_transactions small_generator = 5" by (simp add: small_generator_def)
  then show ?thesis
    unfolding generate_transactions_def by (simp add: consume_five_by_three)
qed

lemma generated_transaction:
  assumes "b \<in> set (fst (generate_transactions g randoms batch_size))" and "t \<in> set b"
  shows "\<exists>i. t = transaction_record g randoms i"
proof -
  have "t \<in> set (concat (fst (generate_transactions g randoms batch_size)))"
    using assms by auto
  then have "t \<in> set (map (transaction_record g randoms) [0..<nat (num_transactions g)])"
    unfolding generate_transactions_def by (simp add: consume_concat)
  then show ?thesis by auto
qed

text \<open>
  Claim C6. For a batch size greater than 0, the account generator and the transaction
  generator yield finitely many batches and then are exhausted; the batches joined are
  the records 0, 1, ... in the order they are made, as many as requested (none for a
  count below 1); every batch but the last has exactly \<open>batch_size\<close> records, no
  batch is empty and none is larger than \<open>batch_size\<close>. Once consumed, the
  generator yields nothing more: the next call gives nothing and a second pass over it
  finds no batch.
\<close>

theorem generators_batch_exactly:
  assumes "0 < batch_size"
  shows
    "snd (generate_accounts g randints batch_size) = Exhausted \<and>
     concat (fst (generate_accounts g randints batch_size)) =
       map (account_record g randints) [0..<nat (num_accounts g)] \<and>
     length (concat (fst (generate_accounts g randints batch_size))) = nat (num_accounts g) \<and>
     (\<forall>b \<in> set (butlast (fst (generate_accounts g randints batch_size))).
        int (length b) = batch_size) \<and>
     (\<forall>b \<in> set (fst (generate_accounts g randints batch_size)).
        b \<noteq> [] \<and> int (length b) \<le> batch_size) \<and>
     snd (generate_transactions g randoms batch_size) = Exhausted \<and>
     concat (fst (generate_transactions g randoms batch_size)) =
       map (transaction_record g randoms) [0..<nat (num_transactions g)] \<and>
     length (concat (fst (generate_transactions g randoms batch_size))) =
       nat (num_transactions g) \<and>
     (\<forall>b \<in> set (butlast (fst (generate_transactions g randoms batch_size))).
        int (length b) = batch_size) \<and>
     (\<forall>b \<in> set (fst (generate_transactions g randoms batch_size)).
        b \<noteq> [] \<and> int (length b) \<le> batch_size) \<and>
     generate_accounts_next g randints batch_size
       (snd (generate_accounts g randints batch_size)) = (None, Exhausted) \<and>
     generate_transactions_next g randoms batch_size
       (snd (generate_transactions g randoms batch_size)) = (None, Exhausted) \<and>
     consume (account_record g randints) (num_accounts g) batch_size
       (snd (generate_accounts g randints batch_size)) = ([], Exhausted) \<and>
     consume (transaction_record g randoms) (num_transactions g) batch_size
       (snd (generate_transactions g randoms batch_size)) = ([], Exhausted)"
  unfolding generate_accounts_def generate_transactions_def
    generate_accounts_next_def generate_transactions_next_def
  using consume_fresh[OF assms, of "account_record g randints" "num_accounts g"]
    consume_fresh[OF assms, of "transaction_record g randoms" "num_transactions g"]
  by (simp add: gen_next.simps(1) consume_Exhausted)

text \<open>
  Seven accounts and five transactions in batches of three: batches of 3, 3 and 1
  accounts and of 3 and 2 transactions.
\<close>

theorem generators_batch_exactly_witness:
  "(0::int) < 3 \<and>
   map length (fst (generate_accounts small_generator (\<lambda>k. 0) 3)) = [3, 3, 1] \<and>
   map length (fst (generate_transactions small_generator (\<lambda>k. 0) 3)) = [3, 2] \<and>
   snd (generate_accounts small_generator (\<lambda>k. 0) 3) = Exhausted \<and>
   snd (generate_transactions small_generator (\<lambda>k. 0) 3) = Exhausted \<and>
   length (concat (fst (generate_accounts small_generator (\<lambda>k. 0) 3))) = 7 \<and>
   length (concat (fst (generate_transactions small_generator (\<lambda>k. 0) 3))) = 5"
proof -
  have p: "(0::int) < 3" by simp
  have a: "map length (fst (generate_accounts small_generator (\<lambda>k. 0) 3)) = [3, 3, 1]"
    by code_simp
  have t: "map length (fst (generate_transactions small_generator (\<lambda>k. 0) 3)) = [3, 2]"
    by (simp add: small_generator_transactions)
  have n: "nat (num_accounts small_generator) = 7" "nat (num_transactions small_generator) = 5"
    by (simp_all add: small_generator_def)
  show ?thesis
    using generators_batch_exactly[OF p, of small_generator "\<lambda>k. 0" "\<lambda>k. 0"] a t
    by (simp add: n)
qed

section \<open>Skewed draws: properties\<close>

lemma py_int_floor_bounds:
  assumes "0 \<le> x" and "x < of_int N"
  shows "0 \<le> py_int x \<and> py_int x < N"
proof -
  have "py_int x = \<lfloor>x\<rfloor>" using assms(1) by (simp add: py_int_def)
  moreover have "0 \<le> \<lfloor>x\<rfloor>" using assms(1) by simp
  moreover have "\<lfloor>x\<rfloor> < N" using assms(2) by (simp add: floor_less_iff)
  ultimately show ?thesis by simp
qed

lemma py_pow_unit_interval:
  assumes "0 \<le> u" and "u < 1" and "0 < S"
  shows "0 \<le> py_pow u S \<and> py_pow u S < 1"
proof (cases "u = 0")
  case True
  then show ?thesis using assms(3) by (simp add: py_pow_def)
next
  case False
  then have pos: "0 < u" using assms(1) by simp
  have "u powr S < 1" using pos assms(2,3) by (simp add: powr01_less_one)
  moreover have "0 \<le> u powr S" by simp
  ultimately show ?thesis using assms(3) by (simp add: py_pow_def)
qed

lemma skewed_index_bounds:
  assumes "0 \<le> u" and "u < 1" and "0 < S" and "0 < N"
  shows "0 \<le> skewed_index S N u \<and> skewed_index S N u < N"
proof -
  have p: "0 \<le> py_pow u S" "py_pow u S < 1"
    using py_pow_unit_interval[OF assms(1,2,3)] by simp_all
  have n: "(0::real) < of_int N" using assms(4) by simp
  have lo: "0 \<le> of_int N * py_pow u S" using n p(1) by simp
  have "of_int N * py_pow u S < of_int N * 1"
    using n p(2) by (intro mult_strict_left_mono) simp_all
  then have hi: "of_int N * py_pow u S < of_int N" by simp
  show ?thesis unfolding skewed_index_def using lo hi by (rule py_int_floor_bounds)
qed

text \<open>
  Claim C3. For every \<open>u\<close> in \<open>[0, 1)\<close>, every skew exponent \<open>S > 0\<close> and every
  account count \<open>N > 0\<close>, the skewed pick \<open>\<lfloor>N * u^S\<rfloor>\<close> lies in \<open>[0, N)\<close>;
  hence, the draws being in \<open>[0, 1)\<close> and the generator having at least one account,
  every generated transaction has \<open>0 \<le> from_acc < num_accounts\<close> and
  \<open>0 \<le> to_acc < num_accounts\<close>.
\<close>

theorem account_picks_in_range:
  "(0 \<le> u \<and> u < 1 \<and> 0 < S \<and> 0 < N \<longrightarrow>
      0 \<le> skewed_index S N u \<and> skewed_index S N u < N) \<and>
   ((\<forall>k. 0 \<le> randoms k \<and> randoms k < 1) \<and> 0 < num_accounts g \<longrightarrow>
      (\<forall>b \<in> set (fst (generate_transactions g randoms batch_size)). \<forall>t \<in> set b.
         0 \<le> from_acc t \<and> from_acc t < num_accounts g \<and>
         0 \<le> to_acc t \<and> to_acc t < num_accounts g))"
proof (intro conjI impI ballI)
  assume "0 \<le> u \<and> u < 1 \<and> 0 < S \<and> 0 < N"
  then have s: "0 \<le> skewed_index S N u \<and> skewed_index S N u < N"
    by (intro skewed_index_bounds) simp_all
  show "0 \<le> skewed_index S N u" using s by simp
  show "skewed_index S N u < N" using s by simp
next
  fix b t
  assume h: "(\<forall>k. 0 \<le> randoms k \<and> randoms k < 1) \<and> 0 < num_accounts g"
    and b: "b \<in> set (fst (generate_transactions g randoms batch_size))"
    and t: "t \<in> set b"
  obtain i where i: "t = transaction_record g randoms i"
    using generated_transaction[OF b t] by blast
  have pick: "0 \<le> pick_account_id g (randoms k) \<and> pick_account_id g (randoms k) < num_accounts g"
    for k
    unfolding pick_account_id_def
    using h by (intro skewed_index_bounds) (simp_all add: ZIPF_SKEW_def)
  have f: "from_acc t = pick_account_id g (randoms (4 * i + 2))"
    and o: "to_acc t = pick_account_id g (randoms (4 * i + 3))"
    unfolding i by (simp_all add: transaction_record_def Let_def)
  show "0 \<le> from_acc t" "from_acc t < num_accounts g"
    unfolding f using pick[of "4 * i + 2"] by simp_all
  show "0 \<le> to_acc t" "to_acc t < num_accounts g"
    unfolding o using pick[of "4 * i + 3"] by simp_all
qed

text \<open>
  Ten accounts, skew 2 and the draw 1/2 give the index 2. With seven accounts and every
  draw 1/2, each of the five transactions goes from account 1 to account 1.
\<close>

theorem account_picks_in_range_witness:
  "(0::real) \<le> 1 / 2 \<and> (1::real) / 2 < 1 \<and> (0::real) < 2 \<and> (0::int) < 10 \<and>
   skewed_index 2 10 (1 / 2) = 2 \<and>
   0 < num_accounts small_generator \<and>
   map (map from_acc) (fst (generate_transactions small_generator (\<lambda>k. 1 / 2) 3)) =
     [[1, 1, 1], [1, 1]] \<and>
   map (map to_acc) (fst (generate_transactions small_generator (\<lambda>k. 1 / 2) 3)) =
     [[1, 1, 1], [1, 1]] \<and>
   list_all (list_all (\<lambda>t. 0 \<le> from_acc t \<and> from_acc t < 7 \<and> 0 \<le> to_acc t \<and> to_acc t < 7))
     (fst (generate_transactions small_generator (\<lambda>k. 1 / 2) 3))"
proof -
  note a = account_picks_in_range[where u = "1 / 2" and S = 2 and N = 10
      and randoms = "\<lambda>k. 1 / 2" and g = small_generator and batch_size = 3]
  have n: "num_accounts small_generator = 7" by (simp add: small_generator_def)
  have v: "skewed_index 2 10 (1 / 2) = 2"
    by (simp add: skewed_index_def py_pow_def py_int_def powr_numeral power2_eq_square)
  have p: "pick_account_id small_generator (1 / 2) = 1"
    by (simp add: pick_account_id_def ZIPF_SKEW_def n skewed_index_def py_pow_def py_int_def
        powr_numeral power2_eq_square)
  have f: "from_acc (transaction_record small_generator (\<lambda>k. 1 / 2) i) = 1"
    and o: "to_acc (transaction_record small_generator (\<lambda>k. 1 / 2) i) = 1" for i
    by (simp_all add: transaction_record_def Let_def p)
  have r: "list_all (list_all (\<lambda>t. 0 \<le> from_acc t \<and> from_acc t < 7 \<and> 0 \<le> to_acc t \<and> to_acc t < 7))
     (fst (generate_transactions small_generator (\<lambda>k. 1 / 2) 3))"
    using a by (simp add: n list_all_iff)
  show ?thesis
    using r v by (simp add: n small_generator_transactions f o)
qed

lemma ts_offset_bounds:
  assumes "0 \<le> u" and "u < 1"
  shows "0 \<le> ts_offset u \<and> ts_offset u < YEAR_SECONDS"
proof -
  have y: "(0::real) < of_int YEAR_SECONDS" by (simp add: YEAR_SECONDS_def)
  have s: "0 \<le> sqrt u" "sqrt u < 1" using assms by simp_all
  have lo: "0 \<le> of_int YEAR_SECONDS * sqrt u" using y s(1) by simp
  have "of_int YEAR_SECONDS * sqrt u < of_int YEAR_SECONDS * 1"
    using y s(2) by (intro mult_strict_left_mono) simp_all
  then have hi: "of_int YEAR_SECONDS * sqrt u < of_int YEAR_SECONDS" by simp
  show ?thesis unfolding ts_offset_def using lo hi by (rule py_int_floor_bounds)
qed

text \<open>
  Claim C5. For every \<open>u\<close> in \<open>[0, 1)\<close> the offset \<open>\<lfloor>YearSeconds * sqrt u\<rfloor>\<close> lies
  in \<open>[0, YearSeconds)\<close>; so, the draws being in \<open>[0, 1)\<close>, the timestamp of every
  generated transaction lies in the year that starts at the generator's start time.
\<close>

theorem timestamps_in_year:
  "(0 \<le> u \<and> u < 1 \<longrightarrow> 0 \<le> ts_offset u \<and> ts_offset u < YEAR_SECONDS) \<and>
   ((\<forall>k. 0 \<le> randoms k \<and> randoms k < 1) \<longrightarrow>
      (\<forall>b \<in> set (fst (generate_transactions g randoms batch_size)). \<forall>t \<in> set b.
         start_time g \<le> ts t \<and> ts t < start_time g + YEAR_SECONDS))"
proof (intro conjI impI ballI)
  assume "0 \<le> u \<and> u < 1"
  then have s: "0 \<le> ts_offset u \<and> ts_offset u < YEAR_SECONDS"
    by (intro ts_offset_bounds) simp_all
  show "0 \<le> ts_offset u" using s by simp
  show "ts_offset u < YEAR_SECONDS" using s by simp
next
  fix b t
  assume h: "\<forall>k. 0 \<le> randoms k \<and> randoms k < 1"
    and b: "b \<in> set (fst (generate_transactions g randoms batch_size))"
    and t: "t \<in> set b"
  obtain i where i: "t = transaction_record g randoms i"
    using generated_transaction[OF b t] by blast
  have off: "0 \<le> ts_offset (randoms (4 * i)) \<and> ts_offset (randoms (4 * i)) < YEAR_SECONDS"
    using h by (intro ts_offset_bounds) simp_all
  have e: "ts t = start_time g + ts_offset (randoms (4 * i))"
    unfolding i by (simp add: transaction_record_def Let_def)
  show "start_time g \<le> ts t" unfolding e using off by simp
  show "ts t < start_time g + YEAR_SECONDS" unfolding e using off by simp
qed

text \<open>
  The draw 1/4 gives half a year, 15768000 seconds; with every draw 1/4 each of the
  five transactions of the small generator has this timestamp.
\<close>

theorem timestamps_in_year_witness:
  "(0::real) \<le> 1 / 4 \<and> (1::real) / 4 < 1 \<and>
   ts_offset (1 / 4) = 15768000 \<and> YEAR_SECONDS = 31536000 \<and>
   map (map ts) (fst (generate_transactions small_generator (\<lambda>k. 1 / 4) 3)) =
     [[15768000, 15768000, 15768000], [15768000, 15768000]] \<and>
   list_all (list_all (\<lambda>t. 0 \<le> ts t \<and> ts t < 31536000))
     (fst (generate_transactions small_generator (\<lambda>k. 1 / 4) 3))"
proof -
  note a = timestamps_in_year[where u = "1 / 4" and randoms = "\<lambda>k. 1 / 4"
      and g = small_generator and batch_size = 3]
  have y: "YEAR_SECONDS = 31536000" by (simp add: YEAR_SECONDS_def)
  have s: "start_time small_generator = 0" by (simp add: small_generator_def)
  have q: "sqrt (1 / 4) = 1 / 2" by (simp add: real_sqrt_divide)
  have v: "ts_offset (1 / 4) = 15768000"
    unfolding ts_offset_def y q by (simp add: py_int_def)
  have e: "ts (transaction_record small_generator (\<lambda>k. 1 / 4) i) = 15768000" for i
    by (simp add: transaction_record_def Let_def v s)
  have r: "list_all (list_all (\<lambda>t. 0 \<le> ts t \<and> ts t < 31536000))
     (fst (generate_transactions small_generator (\<lambda>k. 1 / 4) 3))"
    using a by (simp add: s y list_all_iff)
  show ?thesis
    using r v y by (simp add: small_generator_transactions e)
qed

end
